theory Spec2Isabelle
  imports Main "HOL-Library.AList"
begin

section \<open>Data model of main.go\<close>

text \<open>
  Instants of \<^verbatim>\<open>time.Time\<close> are integers (nanoseconds on one time line, the zero
  \<^verbatim>\<open>time.Time\<close> being 0); a \<^verbatim>\<open>time.Duration\<close> is a signed 64-bit count of
  nanoseconds, and \<^verbatim>\<open>Time.Sub\<close> saturates at its two ends, as the Go library does.
\<close>

type_synonym time = int
type_synonym Duration = int

definition minDuration :: Duration where
  "minDuration = - (2 ^ 63)"

definition maxDuration :: Duration where
  "maxDuration = 2 ^ 63 - 1"

definition Second :: Duration where
  "Second = 1000000000"

definition Sub :: "time \<Rightarrow> time \<Rightarrow> Duration" where
  "Sub t u =
     (let d = t - u
      in if d < minDuration then minDuration
         else if maxDuration < d then maxDuration
         else d)"

record Message =
  ID :: string
  Message :: string
  Timestamp :: time
  Processed :: bool

record PollOption =
  OpText :: string
  Label :: string
  Voters :: "string list"

text \<open>
  \<^verbatim>\<open>Options\<close> is a Go map; the list holds its entries in the order in which the
  \<^verbatim>\<open>range\<close> statement of \<^verbatim>\<open>fetchPollStatus\<close> visits them.
\<close>

record PollQuestion =
  Question :: string
  Options :: "(string \<times> PollOption) list"

subsection \<open>Errors\<close>

datatype code =
    OK | Canceled | Unknown | InvalidArgument | DeadlineExceeded | NotFound
  | AlreadyExists | PermissionDenied | ResourceExhausted | FailedPrecondition
  | Aborted | OutOfRange | Unimplemented | Internal | Unavailable | DataLoss
  | Unauthenticated

text \<open>
  A non-nil Go \<^verbatim>\<open>error\<close>: a gRPC status error, the sentinel \<^verbatim>\<open>iterator.Done\<close>, any
  other error of a library, or \<^verbatim>\<open>fmt.Errorf("<text>: %w", err)\<close>. A value of type
  \<open>error option\<close> is a Go \<^verbatim>\<open>error\<close>, \<open>None\<close> being \<^verbatim>\<open>nil\<close>.
\<close>

datatype error =
    Status code string
  | Done
  | Other string
  | Errorf string error

text \<open>\<^verbatim>\<open>status.Code\<close>: OK for nil, the code of a status error (also of a wrapped one),
  Unknown for every other error.\<close>

fun error_Code :: "error \<Rightarrow> code" where
  "error_Code (Status c m) = c"
| "error_Code Done = Unknown"
| "error_Code (Other m) = Unknown"
| "error_Code (Errorf m e) = error_Code e"

definition status_Code :: "error option \<Rightarrow> code" where
  "status_Code err = (case err of None \<Rightarrow> OK | Some e \<Rightarrow> error_Code e)"

subsection \<open>The external collaborators\<close>

text \<open>
  What the calls to the outside answer while one unit of work runs (one drain, one
  handled message, one monitor tick): the two client initialisations, the model,
  the write and update of a document, the read of the poll document (the outer sum is
  the result of \<^verbatim>\<open>Get\<close>, the inner one of \<^verbatim>\<open>DataTo\<close>), and the position and error at
  which the query iterator of the drain fails, if it does.
\<close>

record env =
  NewApp :: "error option"
  Firestore :: "error option"
  Generate :: "string \<Rightarrow> error + string"
  Doc_Set :: "string \<Rightarrow> string \<Rightarrow> error option"
  Ref_Update :: "string \<Rightarrow> string \<Rightarrow> error option"
  Doc_Get :: "string \<Rightarrow> string \<Rightarrow> error + (error + PollQuestion)"
  Documents_err :: "(nat \<times> error) option"

text \<open>A document delivered by a query: its reference's ID and what \<^verbatim>\<open>DataTo\<close> gives.\<close>

record DocumentSnapshot =
  RefID :: string
  DataTo :: "error + Message"

text \<open>The calls a run makes, in order (attempts are recorded, successful or not).\<close>

datatype effect =
    Lock
  | Unlock
  | ModelGenerate string
  | DocSet string string Message
  | DocUpdate string string
  | DocGet string string
  | Print string

text \<open>
  The package-level variables \<^verbatim>\<open>lastUserMessage\<close>, \<^verbatim>\<open>conversationSummary\<close> and
  \<^verbatim>\<open>lastResponseTime\<close>, the message collections of the database by collection name
  (each an association list from document ID to document, in query order), the clock
  (\<open>clock w n\<close> is what the \<open>n\<close>-th call of \<^verbatim>\<open>time.Now\<close> returns, \<open>reads w\<close> counts the
  calls made) and the trace of calls.
\<close>

record world =
  lastUserMessage :: time
  conversationSummary :: string
  lastResponseTime :: time
  db :: "string \<Rightarrow> (string \<times> Message) list"
  clock :: "nat \<Rightarrow> time"
  reads :: nat
  trace :: "effect list"

definition emit :: "effect \<Rightarrow> world \<Rightarrow> world" where
  "emit e w = w\<lparr>trace := trace w @ [e]\<rparr>"

definition Now :: "world \<Rightarrow> time \<times> world" where
  "Now w = (clock w (reads w), w\<lparr>reads := Suc (reads w)\<rparr>)"

section \<open>Formatting\<close>

text \<open>The verb \<^verbatim>\<open>%d\<close> of \<^verbatim>\<open>fmt.Sprintf\<close> on an \<^verbatim>\<open>int\<close>: decimal digits, with a sign when negative.\<close>

fun digits :: "nat \<Rightarrow> string" where
  "digits n =
     (if n < 10 then [''0123456789'' ! n]
      else digits (n div 10) @ [''0123456789'' ! (n mod 10)])"

declare digits.simps [simp del]

definition Sprintf_d :: "int \<Rightarrow> string" where
  "Sprintf_d i = (if i < 0 then ''-'' @ digits (nat (- i)) else digits (nat i))"

section \<open>The functions of main.go\<close>

subsection \<open>generateResponse, writeMessage and the update of the processed field\<close>

definition requestText :: "string \<Rightarrow> string \<Rightarrow> string" where
  "requestText userMessage summary =
     ''You're Amitabh Bachchan, hosting Kaun Banega Crorepati. Current status:\<newline>''
     @ summary @ ''\<newline>User said: '' @ userMessage
     @ ''\<newline>Respond in Amitabh's style, max 30 words. Be witty and professional. Do not say anything that can be taken as abusive.''"

definition generateResponse :: "env \<Rightarrow> string \<Rightarrow> string \<Rightarrow> world \<Rightarrow> (error + string) \<times> world" where
  "generateResponse env userMessage summary w =
     (let req = requestText userMessage summary;
          w1 = emit (ModelGenerate req) w
      in case Generate env req of
           Inl err \<Rightarrow> (Inl (Errorf ''gemini model error'' err), w1)
         | Inr text \<Rightarrow> (Inr text, w1))"

definition writeMessage :: "env \<Rightarrow> string \<Rightarrow> string \<Rightarrow> string \<Rightarrow> world \<Rightarrow> error option \<times> world" where
  "writeMessage env collection ident message w =
     (case Now w of (t, w1) \<Rightarrow>
        (let doc = \<lparr>ID = ident, Message = message, Timestamp = t, Processed = False\<rparr>;
             w2 = emit (DocSet collection ident doc) w1
         in case Doc_Set env collection ident of
              Some err \<Rightarrow> (Some err, w2)
            | None \<Rightarrow>
                (None, w2\<lparr>db := (db w2)(collection := AList.update ident doc (db w2 collection))\<rparr>)))"

text \<open>
  \<^verbatim>\<open>doc.Ref.Update(ctx, []firestore.Update{{Path: "processed", Value: true}})\<close> on the
  document \<open>ident\<close> of \<open>collection\<close>. Firestore refuses the update of a document that
  does not exist.
\<close>

definition updateProcessed :: "env \<Rightarrow> string \<Rightarrow> string \<Rightarrow> world \<Rightarrow> error option \<times> world" where
  "updateProcessed env collection ident w =
     (let w1 = emit (DocUpdate collection ident) w
      in case Ref_Update env collection ident of
           Some err \<Rightarrow> (Some err, w1)
         | None \<Rightarrow>
             (if ident \<in> fst ` set (db w1 collection)
              then (None, w1\<lparr>db := (db w1)(collection :=
                      AList.map_entry ident (\<lambda>m. m\<lparr>Processed := True\<rparr>) (db w1 collection))\<rparr>)
              else (Some (Status NotFound ''no document to update''), w1)))"

subsection \<open>markExistingMessagesAsProcessed\<close>

text \<open>
  The iterator of \<^verbatim>\<open>Where("processed", "==", false).Documents(ctx)\<close>: the results of the
  successive calls of \<^verbatim>\<open>Next\<close>; past the end of the list \<^verbatim>\<open>Next\<close> returns
  \<^verbatim>\<open>iterator.Done\<close>.
\<close>

definition unprocessed :: "(string \<times> Message) list \<Rightarrow> (string \<times> Message) list" where
  "unprocessed docs = filter (\<lambda>(k, m). \<not> Processed m) docs"

definition Documents :: "env \<Rightarrow> string \<Rightarrow> world \<Rightarrow> (error + DocumentSnapshot) list" where
  "Documents env collection w =
     (let found = map (\<lambda>(k, m). Inr \<lparr>RefID = k, DataTo = Inr m\<rparr>) (unprocessed (db w collection))
      in case Documents_err env of
           None \<Rightarrow> found
         | Some (n, err) \<Rightarrow> take n found @ [Inl err])"

fun drainLoop :: "env \<Rightarrow> string \<Rightarrow> (error + DocumentSnapshot) list \<Rightarrow> world \<Rightarrow> error option \<times> world" where
  "drainLoop env userCollection [] w = (None, w)"
| "drainLoop env userCollection (Inl err # iter) w =
     (if err = Done then (None, w)
      else (Some (Errorf ''error iterating through unprocessed messages'' err), w))"
| "drainLoop env userCollection (Inr doc # iter) w =
     (case updateProcessed env userCollection (RefID doc) w of
        (Some err, w1) \<Rightarrow> (Some (Errorf ''error marking message as processed'' err), w1)
      | (None, w1) \<Rightarrow>
          drainLoop env userCollection iter
            (emit (Print (''Existing message marked as processed: '' @ RefID doc @ ''\<newline>'')) w1))"

definition markExistingMessagesAsProcessed :: "env \<Rightarrow> string \<Rightarrow> world \<Rightarrow> error option \<times> world" where
  "markExistingMessagesAsProcessed env userCollection w =
     (case NewApp env of
        Some err \<Rightarrow> (Some (Errorf ''error initializing app'' err), w)
      | None \<Rightarrow>
          (case Firestore env of
             Some err \<Rightarrow> (Some (Errorf ''error initializing Firestore'' err), w)
           | None \<Rightarrow> drainLoop env userCollection (Documents env userCollection w) w))"

subsection \<open>listenForNewUserMessages\<close>

text \<open>Lines 177 to 208: the handling of one message, from \<^verbatim>\<open>mu.Lock()\<close> to \<^verbatim>\<open>mu.Unlock()\<close>.\<close>

definition handleMessage ::
  "env \<Rightarrow> string \<Rightarrow> string \<Rightarrow> string \<Rightarrow> Message \<Rightarrow> world \<Rightarrow> error option \<times> world" where
  "handleMessage env userCollection pingCollection refID msg w =
     (case Now (emit Lock w) of (t1, w1) \<Rightarrow>
        (let w2 = w1\<lparr>lastUserMessage := t1\<rparr>
         in case generateResponse env (Message msg) (conversationSummary w2) w2 of
              (Inl err, w3) \<Rightarrow> (Some (Errorf ''error generating response'' err), emit Unlock w3)
            | (Inr responseMessage, w3) \<Rightarrow>
                (case writeMessage env pingCollection refID responseMessage w3 of
                   (Some err, w4) \<Rightarrow>
                     (Some (Errorf ''error writing response message'' err), emit Unlock w4)
                 | (None, w4) \<Rightarrow>
                     (case updateProcessed env userCollection refID w4 of
                        (Some err, w5) \<Rightarrow>
                          (Some (Errorf ''error marking message as processed'' err), emit Unlock w5)
                      | (None, w5) \<Rightarrow>
                          (case Now w5 of (t2, w6) \<Rightarrow>
                             (None,
                              emit Unlock
                                (emit (Print (''Response written: '' @ responseMessage @ ''\<newline>''))
                                   (w6\<lparr>lastResponseTime := t2\<rparr>))))))))"

text \<open>
  The inner loop over \<^verbatim>\<open>snap.Documents\<close>. Each delivered document comes with what the
  outside answers while it is handled.
\<close>

fun documentsLoop ::
  "string \<Rightarrow> string \<Rightarrow> (error + env \<times> DocumentSnapshot) list \<Rightarrow> world \<Rightarrow> error option \<times> world" where
  "documentsLoop userCollection pingCollection [] w = (None, w)"
| "documentsLoop userCollection pingCollection (Inl err # iter) w =
     (if err = Done then (None, w) else (Some (Errorf ''Documents.Next'' err), w))"
| "documentsLoop userCollection pingCollection (Inr (env, doc) # iter) w =
     (case DataTo doc of
        Inl err \<Rightarrow> (Some (Errorf ''error converting document to message'' err), w)
      | Inr msg \<Rightarrow>
          (case handleMessage env userCollection pingCollection (RefID doc) msg w of
             (Some err, w1) \<Rightarrow> (Some err, w1)
           | (None, w1) \<Rightarrow> documentsLoop userCollection pingCollection iter w1))"

text \<open>
  What a worker function has done on a finite prefix of what it waits for: it has
  returned (nil or an error), or it is still blocked in its loop.
\<close>

datatype returned = Returned "error option" | Waiting

text \<open>
  The outer loop over the results of \<^verbatim>\<open>it.Next()\<close> of the snapshot iterator; with no
  further result the call blocks.
\<close>

fun snapshotsLoop ::
  "string \<Rightarrow> string \<Rightarrow> (error + (error + env \<times> DocumentSnapshot) list) list \<Rightarrow> world
     \<Rightarrow> returned \<times> world" where
  "snapshotsLoop userCollection pingCollection [] w = (Waiting, w)"
| "snapshotsLoop userCollection pingCollection (next # snaps) w =
     (let err = (case next of Inl e \<Rightarrow> Some e | Inr snap \<Rightarrow> None)
      in if status_Code err = DeadlineExceeded
         then (Returned None, emit (Print ''Timeout reached\<newline>'') w)
         else (case next of
                 Inl e \<Rightarrow> (Returned (Some (Errorf ''Snapshots.Next'' e)), w)
               | Inr snap \<Rightarrow>
                   (case documentsLoop userCollection pingCollection snap w of
                      (Some e, w1) \<Rightarrow> (Returned (Some e), w1)
                    | (None, w1) \<Rightarrow> snapshotsLoop userCollection pingCollection snaps w1)))"

definition listenForNewUserMessages ::
  "env \<Rightarrow> string \<Rightarrow> string \<Rightarrow> (error + (error + env \<times> DocumentSnapshot) list) list \<Rightarrow> world
     \<Rightarrow> returned \<times> world" where
  "listenForNewUserMessages env userCollection pingCollection snaps w =
     (case NewApp env of
        Some err \<Rightarrow> (Returned (Some (Errorf ''error initializing app'' err)), w)
      | None \<Rightarrow>
          (case Firestore env of
             Some err \<Rightarrow> (Returned (Some (Errorf ''error initializing Firestore'' err)), w)
           | None \<Rightarrow> snapshotsLoop userCollection pingCollection snaps w))"

subsection \<open>fetchPollStatus, updateConversationSummary, monitorAndRespond\<close>

fun optionsLoop :: "(string \<times> PollOption) list \<Rightarrow> string \<Rightarrow> string" where
  "optionsLoop [] summary = summary"
| "optionsLoop ((key, opt) # rest) summary =
     optionsLoop rest
       (summary @ Label opt @ '' - '' @ OpText opt @ '': ''
          @ Sprintf_d (int (length (Voters opt))) @ '' votes\<newline>'')"

definition fetchPollStatus :: "env \<Rightarrow> string \<Rightarrow> world \<Rightarrow> (error + string) \<times> world" where
  "fetchPollStatus env pollCollection w =
     (let w1 = emit (DocGet pollCollection ''q1'') w
      in case Doc_Get env pollCollection ''q1'' of
           Inl err \<Rightarrow> (Inl (Errorf ''error fetching poll document'' err), w1)
         | Inr doc \<Rightarrow>
             (case doc of
                Inl err \<Rightarrow> (Inl (Errorf ''error converting document to PollQuestion'' err), w1)
              | Inr pollQuestion \<Rightarrow>
                  (Inr (optionsLoop (Options pollQuestion)
                          ('''' @ ''Question: '' @ Question pollQuestion @ ''\<newline>'')),
                   w1)))"

definition updateConversationSummary :: "string \<Rightarrow> world \<Rightarrow> world" where
  "updateConversationSummary pollSummary w =
     w\<lparr>conversationSummary :=
         ''Current poll status:\<newline>'' @ pollSummary
         @ ''\<newline>Conversation history: [Add relevant conversation history here]''\<rparr>"

text \<open>Lines 232 to 273: one tick of the ticker, from \<^verbatim>\<open>mu.Lock()\<close> to \<^verbatim>\<open>mu.Unlock()\<close>.\<close>

definition monitorTick :: "env \<Rightarrow> string \<Rightarrow> string \<Rightarrow> world \<Rightarrow> error option \<times> world" where
  "monitorTick env pingCollection pollCollection w =
     (case Now (emit Lock w) of (currentTime, w1) \<Rightarrow>
        (case fetchPollStatus env pollCollection w1 of
           (Inl err, w2) \<Rightarrow> (Some (Errorf ''error fetching poll status'' err), emit Unlock w2)
         | (Inr pollSummary, w2) \<Rightarrow>
             (let w3 = updateConversationSummary pollSummary w2
              in if Sub currentTime (lastUserMessage w3) > 30 * Second
                    \<and> Sub currentTime (lastResponseTime w3) \<ge> 10 * Second
                 then
                   (case generateResponse env ''prompt'' (conversationSummary w3) w3 of
                      (Inl err, w4) \<Rightarrow> (Some (Errorf ''error generating prompt'' err), emit Unlock w4)
                    | (Inr promptMessage, w4) \<Rightarrow>
                        (case writeMessage env pingCollection ''host-prompt'' promptMessage w4 of
                           (Some err, w5) \<Rightarrow>
                             (Some (Errorf ''error writing prompt message'' err), emit Unlock w5)
                         | (None, w5) \<Rightarrow>
                             (None, emit Unlock (w5\<lparr>lastResponseTime := currentTime\<rparr>))))
                 else if Sub currentTime (lastResponseTime w3) \<ge> 15 * Second
                 then
                   (let updateMessage = ''Poll update: '' @ pollSummary
                    in case generateResponse env ''poll-update'' updateMessage w3 of
                         (Inl err, w4) \<Rightarrow> (Some (Errorf ''error generating prompt'' err), emit Unlock w4)
                       | (Inr promptMessage, w4) \<Rightarrow>
                           (case writeMessage env pingCollection ''host-prompt'' promptMessage w4 of
                              (Some err, w5) \<Rightarrow>
                                (Some (Errorf ''error writing prompt message'' err), emit Unlock w5)
                            | (None, w5) \<Rightarrow>
                                (None, emit Unlock (w5\<lparr>lastResponseTime := currentTime\<rparr>))))
                 else (None, emit Unlock w3))))"

text \<open>The loop over the ticks of the ticker; with no further tick the \<^verbatim>\<open>select\<close> blocks.\<close>

fun tickerLoop :: "string \<Rightarrow> string \<Rightarrow> env list \<Rightarrow> world \<Rightarrow> returned \<times> world" where
  "tickerLoop pingCollection pollCollection [] w = (Waiting, w)"
| "tickerLoop pingCollection pollCollection (env # ticks) w =
     (case monitorTick env pingCollection pollCollection w of
        (Some err, w1) \<Rightarrow> (Returned (Some err), w1)
      | (None, w1) \<Rightarrow> tickerLoop pingCollection pollCollection ticks w1)"

definition monitorAndRespond ::
  "env \<Rightarrow> string \<Rightarrow> string \<Rightarrow> env list \<Rightarrow> world \<Rightarrow> returned \<times> world" where
  "monitorAndRespond env pingCollection pollCollection ticks w =
     (case NewApp env of
        Some err \<Rightarrow> (Returned (Some (Errorf ''error initializing app'' err)), w)
      | None \<Rightarrow>
          (case Firestore env of
             Some err \<Rightarrow> (Returned (Some (Errorf ''error initializing Firestore'' err)), w)
           | None \<Rightarrow> tickerLoop pingCollection pollCollection ticks w))"

subsection \<open>main\<close>

text \<open>
  How a goroutine of \<^verbatim>\<open>main\<close> stands: \<^verbatim>\<open>log.Fatalf\<close> has ended the process, the goroutine
  is done, or it is still inside its worker function.
\<close>

datatype exit = Fatalf string error | Finished | Running

text \<open>The first goroutine (lines 71 to 82): the drain, then the listener.\<close>

definition messageWorker ::
  "env \<Rightarrow> env \<Rightarrow> string \<Rightarrow> string \<Rightarrow> (error + (error + env \<times> DocumentSnapshot) list) list \<Rightarrow> world
     \<Rightarrow> exit \<times> world" where
  "messageWorker envDrain envListen userCollection pingCollection snaps w =
     (case markExistingMessagesAsProcessed envDrain userCollection w of
        (Some err, w1) \<Rightarrow> (Fatalf ''Error marking existing messages: '' err, w1)
      | (None, w1) \<Rightarrow>
          (case listenForNewUserMessages envListen userCollection pingCollection snaps w1 of
             (Returned (Some err), w2) \<Rightarrow> (Fatalf ''Error listening for new user messages: '' err, w2)
           | (Returned None, w2) \<Rightarrow> (Finished, w2)
           | (Waiting, w2) \<Rightarrow> (Running, w2)))"

text \<open>
  The critical sections of the two workers, as they follow one another under the
  mutex: a handled message or a tick. A critical section that ends in an error ends
  the process (\<^verbatim>\<open>log.Fatalf\<close>), so the run stops there. \<open>run\<close> lists the world after
  each critical section.
\<close>

datatype event = UserMessage env string Message | Tick env

definition critical :: "string \<Rightarrow> string \<Rightarrow> string \<Rightarrow> event \<Rightarrow> world \<Rightarrow> error option \<times> world" where
  "critical userCollection pingCollection pollCollection ev w =
     (case ev of
        UserMessage env refID msg \<Rightarrow> handleMessage env userCollection pingCollection refID msg w
      | Tick env \<Rightarrow> monitorTick env pingCollection pollCollection w)"

fun run :: "string \<Rightarrow> string \<Rightarrow> string \<Rightarrow> event list \<Rightarrow> world \<Rightarrow> world list" where
  "run userCollection pingCollection pollCollection [] w = []"
| "run userCollection pingCollection pollCollection (ev # evs) w =
     (case critical userCollection pingCollection pollCollection ev w of
        (Some err, w1) \<Rightarrow> [w1]
      | (None, w1) \<Rightarrow> w1 # run userCollection pingCollection pollCollection evs w1)"

section \<open>Definitions for stating the properties\<close>

text \<open>Reading a decimal numeral back: the number a string of digits denotes.\<close>

definition digit_value :: "char \<Rightarrow> nat" where
  "digit_value c = of_char c - 48"

definition decimal_value :: "string \<Rightarrow> nat" where
  "decimal_value s = foldl (\<lambda>a c. 10 * a + digit_value c) 0 s"

text \<open>
  The summary as the specification words it: the question line, then one line per
  option with its label, its text and a number of votes.
\<close>

definition spec_option_line :: "string \<Rightarrow> string \<Rightarrow> nat \<Rightarrow> string" where
  "spec_option_line label text n = label @ '' - '' @ text @ '': '' @ digits n @ '' votes\<newline>''"

definition spec_poll_summary :: "PollQuestion \<Rightarrow> string" where
  "spec_poll_summary p =
     ''Question: '' @ Question p @ ''\<newline>''
     @ concat (map (\<lambda>(key, opt). spec_option_line (Label opt) (OpText opt) (length (Voters opt)))
         (Options p))"

subsection \<open>A concrete poll, environment and world\<close>

definition example_poll :: PollQuestion where
  "example_poll =
     \<lparr>Question = ''Who wins?'',
      Options = [(''A'', \<lparr>OpText = ''India'', Label = ''A'', Voters = [''a'', ''b'', ''a'']\<rparr>),
                 (''B'', \<lparr>OpText = ''Australia'', Label = ''B'', Voters = []\<rparr>)]\<rparr>"

definition example_env :: env where
  "example_env =
     \<lparr>NewApp = None, Firestore = None,
      Generate = (\<lambda>req. Inr ''Namaste!''),
      Doc_Set = (\<lambda>c i. None),
      Ref_Update = (\<lambda>c i. None),
      Doc_Get = (\<lambda>c i. if c = ''gccdpune-poll'' \<and> i = ''q1'' then Inr (Inr example_poll)
                         else Inl (Status NotFound ''no such document'')),
      Documents_err = None\<rparr>"

definition example_world :: "time \<Rightarrow> time \<Rightarrow> time \<Rightarrow> world" where
  "example_world u r now =
     \<lparr>lastUserMessage = u, conversationSummary = '''', lastResponseTime = r,
      db = (\<lambda>c. if c = ''gccdpune-user''
                 then [(''m0'', \<lparr>ID = ''m0'', Message = ''Old'', Timestamp = 3, Processed = True\<rparr>),
                       (''m1'', \<lparr>ID = ''m1'', Message = ''Hello'', Timestamp = 5, Processed = False\<rparr>),
                       (''m2'', \<lparr>ID = ''m2'', Message = ''Hi'', Timestamp = 6, Processed = False\<rparr>)]
                 else []),
      clock = (\<lambda>n. now + int n), reads = 0, trace = []\<rparr>"

definition example_msg :: Message where
  "example_msg = \<lparr>ID = ''m1'', Message = ''Hello'', Timestamp = 5, Processed = False\<rparr>"

definition example_env_sink_down :: env where
  "example_env_sink_down = example_env\<lparr>Doc_Set := (\<lambda>c i. Some (Status Unavailable ''sink down''))\<rparr>"

text \<open>The calls made between two worlds of one run: the part of the later trace that is new.\<close>

definition since :: "world \<Rightarrow> world \<Rightarrow> effect list" where
  "since w w' = drop (length (trace w)) (trace w')"

text \<open>
  For the drain: a collection in which the documents with the given IDs have been marked
  processed, and the calls the drain makes for a list of document IDs.
\<close>

definition marked :: "string list \<Rightarrow> (string \<times> Message) list \<Rightarrow> (string \<times> Message) list" where
  "marked ks docs = map (\<lambda>(k, m). if k \<in> set ks then (k, m\<lparr>Processed := True\<rparr>) else (k, m)) docs"

definition drain_calls :: "string \<Rightarrow> string list \<Rightarrow> effect list" where
  "drain_calls uc ks =
     concat (map (\<lambda>k. [DocUpdate uc k,
                        Print (''Existing message marked as processed: '' @ k @ ''\<newline>'')]) ks)"

definition example_env_update_fails :: env where
  "example_env_update_fails =
     example_env\<lparr>Ref_Update :=
       (\<lambda>c i. if i = ''m2'' then Some (Status Unavailable ''store down'') else None)\<rparr>"

text \<open>A world whose clock advances by 20 seconds from one reading to the next.\<close>

definition example_run_world :: world where
  "example_run_world =
     (example_world (50 * Second) (70 * Second) (100 * Second))
       \<lparr>clock := (\<lambda>n. 100 * Second + 20 * Second * int n)\<rparr>"

section \<open>Lemmas about the formatting and the primitive calls\<close>

lemma digit_value_nth: "n < 10 \<Longrightarrow> digit_value (''0123456789'' ! n) = n"
proof -
  assume "n < 10"
  then have "n \<in> {0, 1, 2, 3, 4, 5, 6, 7, 8, 9}" by auto
  then show ?thesis by (auto simp: digit_value_def)
qed

lemma decimal_value_digits: "decimal_value (digits n) = n"
proof (induction n rule: digits.induct)
  case (1 n)
  show ?case
  proof (cases "n < 10")
    case True
    then show ?thesis
      by (subst digits.simps) (simp add: decimal_value_def digit_value_nth)
  next
    case False
    then have "decimal_value (digits (n div 10)) = n div 10"
      using 1 by simp
    moreover have "n mod 10 < 10" by simp
    ultimately show ?thesis
      using False
      by (subst digits.simps) (simp add: decimal_value_def digit_value_nth del: One_nat_def)
  qed
qed

lemma Sprintf_d_length: "Sprintf_d (int n) = digits n"
  by (simp add: Sprintf_d_def)

lemma optionsLoop_append:
  "optionsLoop opts summary =
     summary @ concat (map (\<lambda>(key, opt). Label opt @ '' - '' @ OpText opt @ '': ''
          @ Sprintf_d (int (length (Voters opt))) @ '' votes\<newline>'') opts)"
  by (induction opts arbitrary: summary) auto

lemma prompt_suffix_neq: "xs @ ''prompt'' \<noteq> ys @ ''poll-update''"
proof
  assume "xs @ ''prompt'' = ys @ ''poll-update''"
  then have "last (xs @ ''prompt'') = last (ys @ ''poll-update'')" by simp
  then show False by simp
qed

lemma requestText_prompt_neq:
  "requestText ''prompt'' s \<noteq> requestText ''poll-update'' s'"
  unfolding requestText_def
  by (simp only: append_assoc[symmetric] append_same_eq prompt_suffix_neq not_False_eq_True)

lemma fetchPollStatus_fst: "fst (fetchPollStatus env pc w) = fst (fetchPollStatus env pc w')"
  by (simp add: fetchPollStatus_def Let_def split: sum.splits)

lemma fetchPollStatus_snd: "snd (fetchPollStatus env pc w) = emit (DocGet pc ''q1'') w"
  by (simp add: fetchPollStatus_def Let_def split: sum.splits)

lemma fetch_pair:
  "fst (fetchPollStatus env pc w) = Inr ps \<Longrightarrow>
   fetchPollStatus env pc w' = (Inr ps, emit (DocGet pc ''q1'') w')"
  by (metis fetchPollStatus_fst fetchPollStatus_snd prod.collapse)

lemma generateResponse_eq:
  "generateResponse env u s w =
     (case Generate env (requestText u s) of
        Inl err \<Rightarrow> Inl (Errorf ''gemini model error'' err)
      | Inr text \<Rightarrow> Inr text,
      emit (ModelGenerate (requestText u s)) w)"
  by (simp add: generateResponse_def Let_def split: sum.splits)

lemma writeMessage_eq:
  "writeMessage env c i m w =
     (Doc_Set env c i,
      (case Doc_Set env c i of
         Some err \<Rightarrow>
           emit (DocSet c i \<lparr>ID = i, Message = m, Timestamp = clock w (reads w), Processed = False\<rparr>)
             (w\<lparr>reads := Suc (reads w)\<rparr>)
       | None \<Rightarrow>
           (emit (DocSet c i \<lparr>ID = i, Message = m, Timestamp = clock w (reads w), Processed = False\<rparr>)
              (w\<lparr>reads := Suc (reads w)\<rparr>))
           \<lparr>db := (db w)(c := AList.update i
                \<lparr>ID = i, Message = m, Timestamp = clock w (reads w), Processed = False\<rparr> (db w c))\<rparr>))"
  by (simp add: writeMessage_def Now_def emit_def Let_def split: option.splits)

text \<open>At the three thresholds of the monitor the saturation of \<^verbatim>\<open>Sub\<close> plays no part.\<close>

lemma Sub_thresholds:
  "30 * Second < Sub t u \<longleftrightarrow> 30 * Second < t - u"
  "10 * Second \<le> Sub t u \<longleftrightarrow> 10 * Second \<le> t - u"
  "15 * Second \<le> Sub t u \<longleftrightarrow> 15 * Second \<le> t - u"
  by (auto simp: Sub_def Let_def Second_def minDuration_def maxDuration_def)

lemma example_fetch:
  "fst (fetchPollStatus example_env ''gccdpune-poll'' w) = Inr (spec_poll_summary example_poll)"
  by (simp add: fetchPollStatus_def example_env_def Let_def optionsLoop_append
      spec_poll_summary_def spec_option_line_def Sprintf_d_length)

section \<open>The poll summary\<close>

text \<open>
  C7. For every poll document that is fetched and converted, the summary that
  \<^verbatim>\<open>fetchPollStatus\<close> computes is the question line followed by one line per option,
  \<open>label - text: N votes\<close>, in which the numeral \<open>N\<close> denotes the length of the
  option's list of voters (a voter listed twice counts twice).
\<close>

theorem poll_summary_format:
  assumes "Doc_Get env pollCollection ''q1'' = Inr (Inr p)"
  shows "fst (fetchPollStatus env pollCollection w) = Inr (spec_poll_summary p)
       \<and> (\<forall>(key, opt) \<in> set (Options p).
             decimal_value (digits (length (Voters opt))) = length (Voters opt))"
  using assms
  by (auto simp: fetchPollStatus_def Let_def optionsLoop_append spec_poll_summary_def
      spec_option_line_def Sprintf_d_length decimal_value_digits)

theorem poll_summary_format_witness:
  "fst (fetchPollStatus example_env ''gccdpune-poll'' (example_world 0 0 0))
     = Inr ''Question: Who wins?\<newline>A - India: 3 votes\<newline>B - Australia: 0 votes\<newline>''"
proof -
  have h: "Doc_Get example_env ''gccdpune-poll'' ''q1'' = Inr (Inr example_poll)"
    by (simp add: example_env_def)
  show ?thesis
    using poll_summary_format [OF h, of "example_world 0 0 0"]
    by (simp add: spec_poll_summary_def spec_option_line_def example_poll_def digits.simps)
qed

section \<open>The decision of the monitor\<close>

text \<open>
  C1. On a tick on which the poll is fetched, when more than 30 seconds have passed
  since the last user message and at least 10 seconds since the last response (so
  also when at least 15 seconds have passed since the last response), the one request
  sent to the model is the idle prompt, which is not the poll-update request; when the
  model answers and the write succeeds, the tick returns nil, the answer is the
  document \<open>host-prompt\<close> of the ping collection, and \<open>lastResponseTime\<close> is the time
  read at the start of the tick.
\<close>

theorem monitor_idle_priority:
  assumes "fst (fetchPollStatus env pollCollection w) = Inr pollSummary"
    and "30 * Second < clock w (reads w) - lastUserMessage w"
    and "10 * Second \<le> clock w (reads w) - lastResponseTime w"
  shows "(let summary = conversationSummary (updateConversationSummary pollSummary w);
              request = requestText ''prompt'' summary;
              r = monitorTick env pingCollection pollCollection w
          in request \<noteq> requestText ''poll-update'' (''Poll update: '' @ pollSummary)
           \<and> trace (snd r) =
               trace w @ [Lock, DocGet pollCollection ''q1'', ModelGenerate request]
               @ (case Generate env request of
                    Inl err \<Rightarrow> []
                  | Inr promptMessage \<Rightarrow>
                      [DocSet pingCollection ''host-prompt''
                         \<lparr>ID = ''host-prompt'', Message = promptMessage,
                          Timestamp = clock w (Suc (reads w)), Processed = False\<rparr>])
               @ [Unlock]
           \<and> (\<forall>promptMessage.
                 Generate env request = Inr promptMessage
                   \<and> Doc_Set env pingCollection ''host-prompt'' = None \<longrightarrow>
                 fst r = None
                 \<and> map_of (db (snd r) pingCollection) ''host-prompt'' =
                     Some \<lparr>ID = ''host-prompt'', Message = promptMessage,
                           Timestamp = clock w (Suc (reads w)), Processed = False\<rparr>
                 \<and> lastResponseTime (snd r) = clock w (reads w)))"
proof -
  have idle: "(30 * Second < Sub (clock w (reads w)) (lastUserMessage w)
            \<and> 10 * Second \<le> Sub (clock w (reads w)) (lastResponseTime w)) = True"
    using assms(2,3) by (simp add: Sub_thresholds)
  show ?thesis
  proof (cases "Generate env (requestText ''prompt''
                  (conversationSummary (updateConversationSummary pollSummary w)))")
    case (Inl err)
    then show ?thesis
      by (simp add: idle monitorTick_def Now_def fetch_pair [OF assms(1)] emit_def
          updateConversationSummary_def Let_def generateResponse_eq requestText_prompt_neq)
  next
    case (Inr p)
    then show ?thesis
      by (cases "Doc_Set env pingCollection ''host-prompt''")
         (simp_all add: idle monitorTick_def Now_def fetch_pair [OF assms(1)] emit_def
          updateConversationSummary_def Let_def generateResponse_eq writeMessage_eq update_conv
          requestText_prompt_neq)
  qed
qed

theorem monitor_idle_priority_witness:
  "fst (monitorTick example_env ''gccdpune-go-pings'' ''gccdpune-poll''
          (example_world (60 * Second) (80 * Second) (100 * Second))) = None
   \<and> map_of (db (snd (monitorTick example_env ''gccdpune-go-pings'' ''gccdpune-poll''
          (example_world (60 * Second) (80 * Second) (100 * Second)))) ''gccdpune-go-pings'')
        ''host-prompt''
      = Some \<lparr>ID = ''host-prompt'', Message = ''Namaste!'',
              Timestamp = 100 * Second + 1, Processed = False\<rparr>
   \<and> lastResponseTime (snd (monitorTick example_env ''gccdpune-go-pings'' ''gccdpune-poll''
          (example_world (60 * Second) (80 * Second) (100 * Second)))) = 100 * Second"
proof -
  let ?w = "example_world (60 * Second) (80 * Second) (100 * Second)"
  have h2: "30 * Second < clock ?w (reads ?w) - lastUserMessage ?w"
    by (simp add: example_world_def Second_def)
  have h3: "10 * Second \<le> clock ?w (reads ?w) - lastResponseTime ?w"
    by (simp add: example_world_def Second_def)
  show ?thesis
    using monitor_idle_priority [OF example_fetch h2 h3, of "''gccdpune-go-pings''"]
    by (simp add: Let_def example_env_def example_world_def)
qed

text \<open>
  C2. On a tick on which the poll is fetched and the idle condition is false, the
  monitor sends the poll-update request exactly when at least 15 seconds have passed
  since the last response (15 seconds included), and persists the answer under
  \<open>host-prompt\<close> when the model answers and the write succeeds; below 15 seconds the
  tick returns nil, calls neither the model nor the reply sink, and leaves the database
  and \<open>lastResponseTime\<close> as they were.
\<close>

theorem monitor_poll_update_threshold:
  assumes "fst (fetchPollStatus env pollCollection w) = Inr pollSummary"
    and "\<not> (30 * Second < clock w (reads w) - lastUserMessage w
            \<and> 10 * Second \<le> clock w (reads w) - lastResponseTime w)"
  shows "(let request = requestText ''poll-update'' (''Poll update: '' @ pollSummary);
              r = monitorTick env pingCollection pollCollection w
          in if 15 * Second \<le> clock w (reads w) - lastResponseTime w
             then trace (snd r) =
                    trace w @ [Lock, DocGet pollCollection ''q1'', ModelGenerate request]
                    @ (case Generate env request of
                         Inl err \<Rightarrow> []
                       | Inr promptMessage \<Rightarrow>
                           [DocSet pingCollection ''host-prompt''
                              \<lparr>ID = ''host-prompt'', Message = promptMessage,
                               Timestamp = clock w (Suc (reads w)), Processed = False\<rparr>])
                    @ [Unlock]
                  \<and> (\<forall>promptMessage.
                        Generate env request = Inr promptMessage
                          \<and> Doc_Set env pingCollection ''host-prompt'' = None \<longrightarrow>
                        fst r = None
                        \<and> map_of (db (snd r) pingCollection) ''host-prompt'' =
                            Some \<lparr>ID = ''host-prompt'', Message = promptMessage,
                                  Timestamp = clock w (Suc (reads w)), Processed = False\<rparr>
                        \<and> lastResponseTime (snd r) = clock w (reads w))
             else fst r = None
                  \<and> trace (snd r) = trace w @ [Lock, DocGet pollCollection ''q1'', Unlock]
                  \<and> db (snd r) = db w
                  \<and> lastResponseTime (snd r) = lastResponseTime w)"
proof -
  have nidle: "(30 * Second < Sub (clock w (reads w)) (lastUserMessage w)
            \<and> 10 * Second \<le> Sub (clock w (reads w)) (lastResponseTime w)) = False"
    using assms(2) by (simp add: Sub_thresholds)
  show ?thesis
  proof (cases "15 * Second \<le> clock w (reads w) - lastResponseTime w")
    case False
    then have "\<not> 15 * Second \<le> Sub (clock w (reads w)) (lastResponseTime w)"
      by (simp add: Sub_thresholds)
    with False show ?thesis
      by (simp add: nidle monitorTick_def Now_def fetch_pair [OF assms(1)] emit_def
          updateConversationSummary_def Let_def)
  next
    case True
    then have due: "15 * Second \<le> Sub (clock w (reads w)) (lastResponseTime w)"
      by (simp add: Sub_thresholds)
    show ?thesis
    proof (cases "Generate env (requestText ''poll-update'' (''Poll update: '' @ pollSummary))")
      case (Inl err)
      with True due show ?thesis
        by (simp add: nidle monitorTick_def Now_def fetch_pair [OF assms(1)] emit_def
            updateConversationSummary_def Let_def generateResponse_eq)
    next
      case (Inr p)
      with True due show ?thesis
        by (cases "Doc_Set env pingCollection ''host-prompt''")
           (simp_all add: nidle monitorTick_def Now_def fetch_pair [OF assms(1)] emit_def
            updateConversationSummary_def Let_def generateResponse_eq writeMessage_eq update_conv)
    qed
  qed
qed

theorem monitor_poll_update_threshold_witness:
  "map_of (db (snd (monitorTick example_env ''gccdpune-go-pings'' ''gccdpune-poll''
          (example_world (90 * Second) (85 * Second) (100 * Second)))) ''gccdpune-go-pings'')
        ''host-prompt''
      = Some \<lparr>ID = ''host-prompt'', Message = ''Namaste!'',
              Timestamp = 100 * Second + 1, Processed = False\<rparr>
   \<and> trace (snd (monitorTick example_env ''gccdpune-go-pings'' ''gccdpune-poll''
          (example_world (90 * Second) (85 * Second) (100 * Second))))
      = [Lock, DocGet ''gccdpune-poll'' ''q1'',
         ModelGenerate (requestText ''poll-update''
           (''Poll update: '' @ spec_poll_summary example_poll)),
         DocSet ''gccdpune-go-pings'' ''host-prompt''
           \<lparr>ID = ''host-prompt'', Message = ''Namaste!'',
            Timestamp = 100 * Second + 1, Processed = False\<rparr>,
         Unlock]
   \<and> fst (monitorTick example_env ''gccdpune-go-pings'' ''gccdpune-poll''
          (example_world (90 * Second) (85 * Second + 10000000) (100 * Second))) = None
   \<and> trace (snd (monitorTick example_env ''gccdpune-go-pings'' ''gccdpune-poll''
          (example_world (90 * Second) (85 * Second + 10000000) (100 * Second))))
      = [Lock, DocGet ''gccdpune-poll'' ''q1'', Unlock]"
proof -
  let ?w = "example_world (90 * Second) (85 * Second) (100 * Second)"
  let ?v = "example_world (90 * Second) (85 * Second + 10000000) (100 * Second)"
  have w1: "\<not> (30 * Second < clock ?w (reads ?w) - lastUserMessage ?w
              \<and> 10 * Second \<le> clock ?w (reads ?w) - lastResponseTime ?w)"
    by (simp add: example_world_def Second_def)
  have v1: "\<not> (30 * Second < clock ?v (reads ?v) - lastUserMessage ?v
              \<and> 10 * Second \<le> clock ?v (reads ?v) - lastResponseTime ?v)"
    by (simp add: example_world_def Second_def)
  have w2: "15 * Second \<le> clock ?w (reads ?w) - lastResponseTime ?w"
    by (simp add: example_world_def Second_def)
  have v2: "\<not> 15 * Second \<le> clock ?v (reads ?v) - lastResponseTime ?v"
    by (simp add: example_world_def Second_def)
  show ?thesis
    using monitor_poll_update_threshold [OF example_fetch w1, of "''gccdpune-go-pings''"]
      monitor_poll_update_threshold [OF example_fetch v1, of "''gccdpune-go-pings''"]
      w2 v2
    by (simp add: Let_def example_env_def) (simp add: example_world_def)
qed

section \<open>The handling of one message\<close>

lemma updateProcessed_eq:
  "updateProcessed env c i w =
     (case Ref_Update env c i of
        Some err \<Rightarrow> (Some err, emit (DocUpdate c i) w)
      | None \<Rightarrow>
          (if i \<in> fst ` set (db w c)
           then (None, (emit (DocUpdate c i) w)\<lparr>db := (db w)(c :=
                   AList.map_entry i (\<lambda>m. m\<lparr>Processed := True\<rparr>) (db w c))\<rparr>)
           else (Some (Status NotFound ''no document to update''), emit (DocUpdate c i) w)))"
  by (simp add: updateProcessed_def emit_def Let_def split: option.splits)

lemma handleMessage_generate_fails:
  assumes "Generate env (requestText (Message msg) (conversationSummary w)) = Inl err"
  shows "handleMessage env uc pc refID msg w =
     (Some (Errorf ''error generating response'' (Errorf ''gemini model error'' err)),
      w\<lparr>lastUserMessage := clock w (reads w), reads := Suc (reads w),
        trace := trace w @ [Lock, ModelGenerate (requestText (Message msg) (conversationSummary w)), Unlock]\<rparr>)"
  using assms
  by (simp add: handleMessage_def Now_def emit_def generateResponse_eq)

lemma handleMessage_write_fails:
  assumes "Generate env (requestText (Message msg) (conversationSummary w)) = Inr text"
    and "Doc_Set env pc refID = Some err"
  shows "handleMessage env uc pc refID msg w =
     (Some (Errorf ''error writing response message'' err),
      w\<lparr>lastUserMessage := clock w (reads w), reads := Suc (Suc (reads w)),
        trace := trace w @ [Lock, ModelGenerate (requestText (Message msg) (conversationSummary w)),
          DocSet pc refID \<lparr>ID = refID, Message = text, Timestamp = clock w (Suc (reads w)), Processed = False\<rparr>,
          Unlock]\<rparr>)"
  using assms
  by (simp add: handleMessage_def Now_def emit_def generateResponse_eq writeMessage_eq)

lemma handleMessage_update_fails:
  assumes "Generate env (requestText (Message msg) (conversationSummary w)) = Inr text"
    and "Doc_Set env pc refID = None"
    and "Ref_Update env uc refID = Some err"
  shows "handleMessage env uc pc refID msg w =
     (Some (Errorf ''error marking message as processed'' err),
      w\<lparr>lastUserMessage := clock w (reads w), reads := Suc (Suc (reads w)),
        trace := trace w @ [Lock, ModelGenerate (requestText (Message msg) (conversationSummary w)),
          DocSet pc refID \<lparr>ID = refID, Message = text, Timestamp = clock w (Suc (reads w)), Processed = False\<rparr>,
          DocUpdate uc refID, Unlock],
        db := (db w)(pc := AList.update refID
          \<lparr>ID = refID, Message = text, Timestamp = clock w (Suc (reads w)), Processed = False\<rparr> (db w pc))\<rparr>)"
  using assms
  by (simp add: handleMessage_def Now_def emit_def generateResponse_eq writeMessage_eq
      updateProcessed_eq)

lemma handleMessage_not_found:
  assumes "Generate env (requestText (Message msg) (conversationSummary w)) = Inr text"
    and "Doc_Set env pc refID = None"
    and "Ref_Update env uc refID = None"
    and "uc \<noteq> pc" and "refID \<notin> fst ` set (db w uc)"
  shows "handleMessage env uc pc refID msg w =
     (Some (Errorf ''error marking message as processed'' (Status NotFound ''no document to update'')),
      w\<lparr>lastUserMessage := clock w (reads w), reads := Suc (Suc (reads w)),
        trace := trace w @ [Lock, ModelGenerate (requestText (Message msg) (conversationSummary w)),
          DocSet pc refID \<lparr>ID = refID, Message = text, Timestamp = clock w (Suc (reads w)), Processed = False\<rparr>,
          DocUpdate uc refID, Unlock],
        db := (db w)(pc := AList.update refID
          \<lparr>ID = refID, Message = text, Timestamp = clock w (Suc (reads w)), Processed = False\<rparr> (db w pc))\<rparr>)"
  using assms
  by (simp add: handleMessage_def Now_def emit_def generateResponse_eq writeMessage_eq
      updateProcessed_eq)

lemma handleMessage_ok:
  assumes "Generate env (requestText (Message msg) (conversationSummary w)) = Inr text"
    and "Doc_Set env pc refID = None"
    and "Ref_Update env uc refID = None"
    and "uc = pc \<or> refID \<in> fst ` set (db w uc)"
  shows "handleMessage env uc pc refID msg w =
     (None,
      w\<lparr>lastUserMessage := clock w (reads w),
        lastResponseTime := clock w (Suc (Suc (reads w))),
        reads := Suc (Suc (Suc (reads w))),
        trace := trace w @ [Lock, ModelGenerate (requestText (Message msg) (conversationSummary w)),
          DocSet pc refID \<lparr>ID = refID, Message = text, Timestamp = clock w (Suc (reads w)), Processed = False\<rparr>,
          DocUpdate uc refID, Print (''Response written: '' @ text @ ''\<newline>''), Unlock],
        db := ((db w)(pc := AList.update refID
          \<lparr>ID = refID, Message = text, Timestamp = clock w (Suc (reads w)), Processed = False\<rparr> (db w pc)))
            (uc := AList.map_entry refID (\<lambda>m. m\<lparr>Processed := True\<rparr>)
               (((db w)(pc := AList.update refID
          \<lparr>ID = refID, Message = text, Timestamp = clock w (Suc (reads w)), Processed = False\<rparr> (db w pc))) uc))\<rparr>)"
proof (cases "uc = pc")
  case True
  with assms(1-3) show ?thesis
    by (simp add: handleMessage_def Now_def emit_def generateResponse_eq writeMessage_eq
        updateProcessed_eq Let_def AList.dom_update)
next
  case False
  with assms show ?thesis
    by (simp add: handleMessage_def Now_def emit_def generateResponse_eq writeMessage_eq
        updateProcessed_eq Let_def)
qed

lemma since_append [simp]: "trace w' = trace w @ es \<Longrightarrow> since w w' = es"
  by (simp add: since_def)

lemma listen_first_document:
  assumes "NewApp env0 = None" and "Firestore env0 = None"
  shows "listenForNewUserMessages env0 uc pc
           (Inr (Inr (env, \<lparr>RefID = refID, DataTo = Inr msg\<rparr>) # docs) # snaps) w =
         (case handleMessage env uc pc refID msg w of
            (Some err, w1) \<Rightarrow> (Returned (Some err), w1)
          | (None, w1) \<Rightarrow>
              (case documentsLoop uc pc docs w1 of
                 (Some err, w2) \<Rightarrow> (Returned (Some err), w2)
               | (None, w2) \<Rightarrow> snapshotsLoop uc pc snaps w2))"
  using assms
  by (simp add: listenForNewUserMessages_def status_Code_def split: prod.splits option.splits)

lemma snapshotsLoop_append:
  "fst (snapshotsLoop uc pc pre w) = Waiting \<Longrightarrow>
   snapshotsLoop uc pc (pre @ rest) w = snapshotsLoop uc pc rest (snd (snapshotsLoop uc pc pre w))"
proof (induction pre arbitrary: w)
  case Nil
  then show ?case by simp
next
  case (Cons a pre)
  then show ?case
    by (auto simp: Let_def split: if_splits sum.splits prod.splits option.splits)
qed

lemmas example_eval =
  handleMessage_def Now_def emit_def generateResponse_eq writeMessage_eq updateProcessed_eq
  Let_def example_env_def example_world_def example_msg_def

text \<open>
  C10. When the generation, the write of the reply or the update of the processed flag
  fails, the handling of the message returns an error, and so does the listener; then
  \<open>lastUserMessage\<close> is the time read at the start of the handling, while
  \<open>lastResponseTime\<close> (and the summary) are as they were before: the update of the
  shared state is not rolled back.
\<close>

theorem handling_error_partial_state:
  assumes "NewApp env0 = None" and "Firestore env0 = None"
  shows "(let request = requestText (Message msg) (conversationSummary w);
              r = handleMessage env uc pc refID msg w
          in ((\<exists>err. Generate env request = Inl err) \<or> Doc_Set env pc refID \<noteq> None
                \<or> Ref_Update env uc refID \<noteq> None \<longrightarrow> fst r \<noteq> None)
           \<and> (fst r \<noteq> None \<longrightarrow>
                 lastUserMessage (snd r) = clock w (reads w)
               \<and> lastResponseTime (snd r) = lastResponseTime w
               \<and> conversationSummary (snd r) = conversationSummary w
               \<and> listenForNewUserMessages env0 uc pc
                    (Inr (Inr (env, \<lparr>RefID = refID, DataTo = Inr msg\<rparr>) # docs) # snaps) w
                  = (Returned (fst r), snd r)))"
proof (cases "Generate env (requestText (Message msg) (conversationSummary w))")
  case (Inl err)
  show ?thesis
    by (simp add: Let_def listen_first_document [OF assms] handleMessage_generate_fails [OF Inl] Inl)
next
  case (Inr reply)
  show ?thesis
  proof (cases "Doc_Set env pc refID")
    case (Some err)
    show ?thesis
      by (simp add: Let_def listen_first_document [OF assms]
          handleMessage_write_fails [OF Inr Some] Inr Some)
  next
    case None
    note written = this
    show ?thesis
    proof (cases "Ref_Update env uc refID")
      case (Some err)
      show ?thesis
        by (simp add: Let_def listen_first_document [OF assms]
            handleMessage_update_fails [OF Inr written Some] Inr written Some)
    next
      case None
      show ?thesis
      proof (cases "uc = pc \<or> refID \<in> fst ` set (db w uc)")
        case True
        show ?thesis
          by (simp add: Let_def handleMessage_ok [OF Inr written None True] Inr written None)
      next
        case False
        then have "uc \<noteq> pc" and "refID \<notin> fst ` set (db w uc)" by simp_all
        then show ?thesis
          by (simp add: Let_def listen_first_document [OF assms]
              handleMessage_not_found [OF Inr written None] Inr written None)
      qed
    qed
  qed
qed

theorem handling_error_partial_state_witness:
  "fst (handleMessage example_env_sink_down ''gccdpune-user'' ''gccdpune-go-pings'' ''m1'' example_msg
          (example_world (50 * Second) (70 * Second) (100 * Second)))
     = Some (Errorf ''error writing response message'' (Status Unavailable ''sink down''))
   \<and> lastUserMessage (snd (handleMessage example_env_sink_down ''gccdpune-user'' ''gccdpune-go-pings''
          ''m1'' example_msg (example_world (50 * Second) (70 * Second) (100 * Second))))
     = 100 * Second
   \<and> lastResponseTime (snd (handleMessage example_env_sink_down ''gccdpune-user'' ''gccdpune-go-pings''
          ''m1'' example_msg (example_world (50 * Second) (70 * Second) (100 * Second))))
     = 70 * Second
   \<and> fst (listenForNewUserMessages example_env ''gccdpune-user'' ''gccdpune-go-pings''
          [Inr [Inr (example_env_sink_down, \<lparr>RefID = ''m1'', DataTo = Inr example_msg\<rparr>)]]
          (example_world (50 * Second) (70 * Second) (100 * Second)))
     = Returned (Some (Errorf ''error writing response message'' (Status Unavailable ''sink down'')))"
proof -
  let ?w = "example_world (50 * Second) (70 * Second) (100 * Second)"
  have a: "NewApp example_env = None" and b: "Firestore example_env = None"
    by (simp_all add: example_env_def)
  have r: "fst (handleMessage example_env_sink_down ''gccdpune-user'' ''gccdpune-go-pings'' ''m1''
             example_msg ?w)
           = Some (Errorf ''error writing response message'' (Status Unavailable ''sink down''))"
    by (simp add: example_eval example_env_sink_down_def)
  show ?thesis
    using handling_error_partial_state [OF a b, where msg = example_msg and w = ?w
        and env = example_env_sink_down and pc = "''gccdpune-go-pings''" and refID = "''m1''"
        and uc = "''gccdpune-user''" and docs = "[]" and snaps = "[]"]
    by (simp add: Let_def r) (simp add: example_world_def)
qed

text \<open>
  C5. The reply to a handled message is written under the ID of the document that
  triggered it, as \<open>{id, message = reply, timestamp, processed = false}\<close>; when
  the write and the update succeed the source document is marked processed. When the
  write fails the database is left as it was and no update is attempted; and the update
  of the source document is only ever attempted after a successful write of the reply.
\<close>

theorem reply_binding:
  "(let request = requestText (Message msg) (conversationSummary w);
        r = handleMessage env uc pc refID msg w
    in (\<forall>reply.
          Generate env request = Inr reply \<longrightarrow>
            (Doc_Set env pc refID = None \<and> Ref_Update env uc refID = None
               \<and> refID \<in> fst ` set (db w uc) \<and> uc \<noteq> pc \<longrightarrow>
               fst r = None
             \<and> since w (snd r) =
                 [Lock, ModelGenerate request,
                  DocSet pc refID \<lparr>ID = refID, Message = reply,
                     Timestamp = clock w (Suc (reads w)), Processed = False\<rparr>,
                  DocUpdate uc refID, Print (''Response written: '' @ reply @ ''\<newline>''), Unlock]
             \<and> map_of (db (snd r) pc) refID =
                 Some \<lparr>ID = refID, Message = reply,
                       Timestamp = clock w (Suc (reads w)), Processed = False\<rparr>
             \<and> map_of (db (snd r) uc) refID =
                 map_option (\<lambda>m. m\<lparr>Processed := True\<rparr>) (map_of (db w uc) refID))
          \<and> (Doc_Set env pc refID \<noteq> None \<longrightarrow>
               fst r \<noteq> None
             \<and> db (snd r) = db w
             \<and> since w (snd r) =
                 [Lock, ModelGenerate request,
                  DocSet pc refID \<lparr>ID = refID, Message = reply,
                     Timestamp = clock w (Suc (reads w)), Processed = False\<rparr>,
                  Unlock]))
     \<and> (DocUpdate uc refID \<in> set (since w (snd r)) \<longrightarrow>
          (\<exists>reply. Generate env request = Inr reply \<and> Doc_Set env pc refID = None
             \<and> take 4 (since w (snd r)) =
                 [Lock, ModelGenerate request,
                  DocSet pc refID \<lparr>ID = refID, Message = reply,
                     Timestamp = clock w (Suc (reads w)), Processed = False\<rparr>,
                  DocUpdate uc refID])))"
proof (cases "Generate env (requestText (Message msg) (conversationSummary w))")
  case (Inl err)
  show ?thesis
    by (simp add: Let_def handleMessage_generate_fails [OF Inl] Inl)
next
  case (Inr reply)
  show ?thesis
  proof (cases "Doc_Set env pc refID")
    case (Some err)
    show ?thesis
      by (simp add: Let_def handleMessage_write_fails [OF Inr Some] Inr Some)
  next
    case None
    note written = this
    show ?thesis
    proof (cases "Ref_Update env uc refID")
      case (Some err)
      show ?thesis
        by (simp add: Let_def handleMessage_update_fails [OF Inr written Some] Inr written Some)
    next
      case None
      show ?thesis
      proof (cases "uc = pc \<or> refID \<in> fst ` set (db w uc)")
        case True
        show ?thesis
          by (simp add: Let_def handleMessage_ok [OF Inr written None True] Inr written None
              AList.update_conv' map_of_map_entry split: option.splits)
      next
        case False
        then have "uc \<noteq> pc" and "refID \<notin> fst ` set (db w uc)" by simp_all
        then show ?thesis
          by (simp add: Let_def handleMessage_not_found [OF Inr written None] Inr written None)
      qed
    qed
  qed
qed

theorem reply_binding_witness:
  "fst (handleMessage example_env ''gccdpune-user'' ''gccdpune-go-pings'' ''m1'' example_msg
          (example_world (50 * Second) (70 * Second) (100 * Second))) = None
   \<and> map_of (db (snd (handleMessage example_env ''gccdpune-user'' ''gccdpune-go-pings'' ''m1''
          example_msg (example_world (50 * Second) (70 * Second) (100 * Second))))
        ''gccdpune-go-pings'') ''m1''
     = Some \<lparr>ID = ''m1'', Message = ''Namaste!'', Timestamp = 100 * Second + 1, Processed = False\<rparr>
   \<and> map_of (db (snd (handleMessage example_env ''gccdpune-user'' ''gccdpune-go-pings'' ''m1''
          example_msg (example_world (50 * Second) (70 * Second) (100 * Second))))
        ''gccdpune-user'') ''m1''
     = Some \<lparr>ID = ''m1'', Message = ''Hello'', Timestamp = 5, Processed = True\<rparr>
   \<and> map_of (db (snd (handleMessage example_env_sink_down ''gccdpune-user'' ''gccdpune-go-pings'' ''m1''
          example_msg (example_world (50 * Second) (70 * Second) (100 * Second))))
        ''gccdpune-user'') ''m1''
     = Some \<lparr>ID = ''m1'', Message = ''Hello'', Timestamp = 5, Processed = False\<rparr>"
proof -
  let ?w = "example_world (50 * Second) (70 * Second) (100 * Second)"
  have g: "Generate example_env (requestText (Message example_msg) (conversationSummary ?w))
             = Inr ''Namaste!''"
    and g': "Generate example_env_sink_down (requestText (Message example_msg) (conversationSummary ?w))
             = Inr ''Namaste!''"
    and s: "Doc_Set example_env ''gccdpune-go-pings'' ''m1'' = None"
    and s': "Doc_Set example_env_sink_down ''gccdpune-go-pings'' ''m1'' \<noteq> None"
    and u: "Ref_Update example_env ''gccdpune-user'' ''m1'' = None"
    and k: "''m1'' \<in> fst ` set (db ?w ''gccdpune-user'')"
    and n: "''gccdpune-user'' \<noteq> ''gccdpune-go-pings''"
    by (simp_all add: example_env_def example_env_sink_down_def example_world_def)
  show ?thesis
    using reply_binding [where msg = example_msg and w = ?w and env = example_env
        and pc = "''gccdpune-go-pings''" and refID = "''m1''" and uc = "''gccdpune-user''"]
      reply_binding [where msg = example_msg and w = ?w and env = example_env_sink_down
        and pc = "''gccdpune-go-pings''" and refID = "''m1''" and uc = "''gccdpune-user''"]
      g g' s s' u k n
    by (simp add: Let_def) (simp add: example_world_def example_msg_def)
qed

text \<open>
  C6. When, after any number of snapshots handled without a return, the next call of
  \<^verbatim>\<open>it.Next()\<close> fails with an error whose status code is \<^verbatim>\<open>DeadlineExceeded\<close>, the
  listener prints a line and returns nil; for an error with any other code it returns
  a non-nil error.
\<close>

theorem listener_timeout:
  assumes "NewApp env = None" and "Firestore env = None"
    and "fst (snapshotsLoop uc pc pre w) = Waiting"
  shows "listenForNewUserMessages env uc pc (pre @ Inl e # snaps) w =
           (if status_Code (Some e) = DeadlineExceeded
            then (Returned None, emit (Print ''Timeout reached\<newline>'') (snd (snapshotsLoop uc pc pre w)))
            else (Returned (Some (Errorf ''Snapshots.Next'' e)), snd (snapshotsLoop uc pc pre w)))"
  using assms
  by (simp add: listenForNewUserMessages_def snapshotsLoop_append)

theorem listener_timeout_witness:
  "fst (listenForNewUserMessages example_env ''gccdpune-user'' ''gccdpune-go-pings''
          ([Inr [Inr (example_env, \<lparr>RefID = ''m1'', DataTo = Inr example_msg\<rparr>)]]
             @ Inl (Status DeadlineExceeded ''context deadline exceeded'') # [])
          (example_world (50 * Second) (70 * Second) (100 * Second)))
     = Returned None
   \<and> fst (listenForNewUserMessages example_env ''gccdpune-user'' ''gccdpune-go-pings''
          ([Inr [Inr (example_env, \<lparr>RefID = ''m1'', DataTo = Inr example_msg\<rparr>)]]
             @ Inl (Status Unavailable ''connection lost'') # [])
          (example_world (50 * Second) (70 * Second) (100 * Second)))
     = Returned (Some (Errorf ''Snapshots.Next'' (Status Unavailable ''connection lost'')))"
proof -
  let ?w = "example_world (50 * Second) (70 * Second) (100 * Second)"
  let ?pre = "[Inr [Inr (example_env, \<lparr>RefID = ''m1'', DataTo = Inr example_msg\<rparr>)]]"
  have a: "NewApp example_env = None" and b: "Firestore example_env = None"
    by (simp_all add: example_env_def)
  have h: "fst (handleMessage example_env ''gccdpune-user'' ''gccdpune-go-pings'' ''m1'' example_msg ?w)
             = None"
    by (simp add: example_eval)
  have p: "fst (snapshotsLoop ''gccdpune-user'' ''gccdpune-go-pings'' ?pre ?w) = Waiting"
  proof (cases "handleMessage example_env ''gccdpune-user'' ''gccdpune-go-pings'' ''m1'' example_msg ?w")
    case (Pair res w1)
    with h show ?thesis by (simp add: status_Code_def)
  qed
  show ?thesis
    using listener_timeout [OF a b p, where e = "Status DeadlineExceeded ''context deadline exceeded''"
        and snaps = "[]"]
      listener_timeout [OF a b p, where e = "Status Unavailable ''connection lost''" and snaps = "[]"]
    by (simp add: status_Code_def)
qed

section \<open>The drain of the backlog\<close>

lemma map_entry_as_map:
  "distinct (map fst al) \<Longrightarrow>
   AList.map_entry k f al = map (\<lambda>(k', v). if k' = k then (k', f v) else (k', v)) al"
proof (induction al)
  case Nil
  then show ?case by simp
next
  case (Cons p al)
  obtain a b where p: "p = (a, b)" by (cases p)
  show ?case
  proof (cases "a = k")
    case True
    with Cons.prems p have "k \<notin> fst ` set al" by auto
    then have "map (\<lambda>(k', v). if k' = k then (k', f v) else (k', v)) al = al"
      by (intro map_idI) (auto simp: image_iff)
    with True p show ?thesis by simp
  next
    case False
    with Cons p show ?thesis by simp
  qed
qed

lemma marked_Nil [simp]: "marked [] al = al"
  by (simp add: marked_def)

lemma marked_map_entry:
  assumes "distinct (map fst al)"
  shows "marked ks (AList.map_entry k (\<lambda>m. m\<lparr>Processed := True\<rparr>) al) = marked (k # ks) al"
  by (simp add: map_entry_as_map [OF assms] marked_def) auto

lemma map_of_marked:
  "map_of (marked ks al) k =
     (if k \<in> set ks then map_option (\<lambda>m. m\<lparr>Processed := True\<rparr>) (map_of al k) else map_of al k)"
  by (induction al) (auto simp: marked_def)

lemma drainLoop_ok:
  assumes "distinct (map fst (db w uc))"
    and "RefID ` set docs \<subseteq> fst ` set (db w uc)"
    and "\<forall>d \<in> set docs. Ref_Update env uc (RefID d) = None"
  shows "drainLoop env uc (map Inr docs @ rest) w =
           drainLoop env uc rest
             (w\<lparr>db := (db w)(uc := marked (map RefID docs) (db w uc)),
               trace := trace w @ drain_calls uc (map RefID docs)\<rparr>)"
  using assms
proof (induction docs arbitrary: w)
  case Nil
  then show ?case by (simp add: drain_calls_def)
next
  case (Cons d docs)
  let ?w1 = "emit (Print (''Existing message marked as processed: '' @ RefID d @ ''\<newline>''))
               ((emit (DocUpdate uc (RefID d)) w)\<lparr>db := (db w)(uc :=
                   AList.map_entry (RefID d) (\<lambda>m. m\<lparr>Processed := True\<rparr>) (db w uc))\<rparr>)"
  have step: "drainLoop env uc (map Inr (d # docs) @ rest) w = drainLoop env uc (map Inr docs @ rest) ?w1"
    using Cons.prems by (simp add: updateProcessed_eq)
  have d1: "distinct (map fst (db ?w1 uc))"
    using Cons.prems(1) by (simp add: emit_def distinct_map_entry)
  have d2: "RefID ` set docs \<subseteq> fst ` set (db ?w1 uc)"
    using Cons.prems(2) by (simp add: emit_def dom_map_entry)
  have d3: "\<forall>d \<in> set docs. Ref_Update env uc (RefID d) = None"
    using Cons.prems(3) by simp
  have w_eq: "?w1\<lparr>db := (db ?w1)(uc := marked (map RefID docs) (db ?w1 uc)),
                 trace := trace ?w1 @ drain_calls uc (map RefID docs)\<rparr>
            = w\<lparr>db := (db w)(uc := marked (map RefID (d # docs)) (db w uc)),
                 trace := trace w @ drain_calls uc (map RefID (d # docs))\<rparr>"
    by (simp add: emit_def marked_map_entry [OF Cons.prems(1)] drain_calls_def)
  show ?case
    by (simp only: step Cons.IH [OF d1 d2 d3] w_eq)
qed

lemma Documents_no_error:
  "Documents_err env = None \<Longrightarrow>
   Documents env uc w = map Inr (map (\<lambda>(k, m). \<lparr>RefID = k, DataTo = Inr m\<rparr>) (unprocessed (db w uc)))"
  by (simp add: Documents_def Let_def case_prod_unfold)

lemma RefID_docs:
  "map RefID (map (\<lambda>(k, m). \<lparr>RefID = k, DataTo = Inr m\<rparr>) un) = map fst un"
  by (induction un) auto

lemma unprocessed_keys_subset: "set (map fst (unprocessed al)) \<subseteq> fst ` set al"
  by (auto simp: unprocessed_def)

lemma distinct_unprocessed_keys:
  "distinct (map fst al) \<Longrightarrow> distinct (map fst (unprocessed al))"
  by (simp add: unprocessed_def distinct_map_filter)

lemma unprocessed_key_iff:
  assumes "distinct (map fst al)" and "(k, m) \<in> set al"
  shows "k \<in> set (map fst (unprocessed al)) \<longleftrightarrow> \<not> Processed m"
proof
  assume "k \<in> set (map fst (unprocessed al))"
  then obtain m' where "(k, m') \<in> set al" and "\<not> Processed m'"
    by (auto simp: unprocessed_def)
  with assms show "\<not> Processed m"
    by (metis eq_key_imp_eq_value)
next
  assume "\<not> Processed m"
  with assms(2) show "k \<in> set (map fst (unprocessed al))"
    by (force simp: unprocessed_def)
qed

lemma mark_processed_id: "Processed m \<Longrightarrow> m\<lparr>Processed := True\<rparr> = m"
  by (cases m) simp

lemma marked_all:
  assumes "distinct (map fst al)"
  shows "marked (map fst (unprocessed al)) al = map (\<lambda>(k, m). (k, m\<lparr>Processed := True\<rparr>)) al"
  unfolding marked_def
proof (rule map_cong [OF refl])
  fix p assume "p \<in> set al"
  obtain k m where p: "p = (k, m)" by (cases p)
  from \<open>p \<in> set al\<close> have mem: "(k, m) \<in> set al" by (simp add: p)
  show "(case p of (k, m) \<Rightarrow> if k \<in> set (map fst (unprocessed al)) then (k, m\<lparr>Processed := True\<rparr>) else (k, m))
        = (case p of (k, m) \<Rightarrow> (k, m\<lparr>Processed := True\<rparr>))"
    using unprocessed_key_iff [OF assms mem] by (simp add: p mark_processed_id)
qed

lemma drain_result:
  assumes "NewApp env = None" and "Firestore env = None" and "Documents_err env = None"
    and "distinct (map fst (db w uc))"
    and ks_def: "ks = map fst (unprocessed (db w uc))"
    and pre_def: "pre = takeWhile (\<lambda>k. Ref_Update env uc k = None) ks"
  shows "markExistingMessagesAsProcessed env uc w =
     (if pre = ks
      then (None,
            w\<lparr>db := (db w)(uc := marked pre (db w uc)),
              trace := trace w @ drain_calls uc pre\<rparr>)
      else (map_option (Errorf ''error marking message as processed'')
              (Ref_Update env uc (ks ! length pre)),
            w\<lparr>db := (db w)(uc := marked pre (db w uc)),
              trace := trace w @ drain_calls uc pre @ [DocUpdate uc (ks ! length pre)]\<rparr>))"
proof -
  define un where "un = unprocessed (db w uc)"
  define docs where "docs = map (\<lambda>(k, m). \<lparr>RefID = k, DataTo = Inr m\<rparr>) un"
  define n where "n = length pre"
  define w1 where "w1 = w\<lparr>db := (db w)(uc := marked pre (db w uc)),
                          trace := trace w @ drain_calls uc pre\<rparr>"
  have ks_un: "ks = map fst un"
    by (simp add: ks_def un_def)
  have ids: "map RefID docs = ks"
    unfolding docs_def ks_un by (rule RefID_docs)
  have start: "markExistingMessagesAsProcessed env uc w = drainLoop env uc (map Inr docs) w"
    using assms(1-3)
    by (simp add: markExistingMessagesAsProcessed_def Documents_no_error docs_def un_def)
  have pre_take: "map RefID (take n docs) = pre"
    by (simp add: take_map [symmetric] ids n_def pre_def takeWhile_eq_take [symmetric])
  have keys: "RefID ` set (take n docs) \<subseteq> fst ` set (db w uc)"
  proof -
    have "RefID ` set (take n docs) \<subseteq> set (map RefID docs)"
      using set_take_subset [of n docs] by auto
    also have "\<dots> \<subseteq> fst ` set (db w uc)"
      unfolding ids ks_def by (rule unprocessed_keys_subset)
    finally show ?thesis .
  qed
  have oks: "\<forall>d \<in> set (take n docs). Ref_Update env uc (RefID d) = None"
  proof
    fix d assume "d \<in> set (take n docs)"
    then have "RefID d \<in> set pre"
      unfolding pre_take [symmetric] by simp
    then show "Ref_Update env uc (RefID d) = None"
      unfolding pre_def by (rule set_takeWhileD [THEN conjunct2])
  qed
  have prefix: "drainLoop env uc (map Inr (take n docs) @ rest) w = drainLoop env uc rest w1" for rest
    using drainLoop_ok [OF assms(4) keys oks, of rest] by (simp add: pre_take w1_def)
  show ?thesis
  proof (cases "pre = ks")
    case True
    then have "n = length docs"
      using ids by (metis length_map n_def)
    then have "drainLoop env uc (map Inr docs) w = (None, w1)"
      using prefix [of "[]"] by simp
    with True show ?thesis
      by (simp add: start w1_def)
  next
    case False
    have app: "pre @ dropWhile (\<lambda>k. Ref_Update env uc k = None) ks = ks"
      by (simp add: pre_def)
    with False have "dropWhile (\<lambda>k. Ref_Update env uc k = None) ks \<noteq> []"
      by (metis append_Nil2)
    moreover have "length ks = length pre + length (dropWhile (\<lambda>k. Ref_Update env uc k = None) ks)"
      using app by (metis length_append)
    ultimately have lt: "n < length ks"
      by (simp add: n_def)
    from lt have nd: "n < length docs"
      using ids by (metis length_map)
    have fail: "Ref_Update env uc (ks ! n) \<noteq> None"
      using nth_length_takeWhile [of "\<lambda>k. Ref_Update env uc k = None" ks] lt
      by (simp add: n_def pre_def)
    have kf: "RefID (docs ! n) = ks ! n"
      using nd ids by (metis nth_map)
    have split: "map Inr docs = map Inr (take n docs) @ Inr (docs ! n) # map Inr (drop (Suc n) docs)"
      using id_take_nth_drop [OF nd] by (metis list.simps(9) map_append)
    from fail obtain err where err: "Ref_Update env uc (ks ! n) = Some err" by auto
    have "drainLoop env uc (map Inr docs) w =
            (Some (Errorf ''error marking message as processed'' err), emit (DocUpdate uc (ks ! n)) w1)"
      unfolding split prefix by (simp add: updateProcessed_eq kf err)
    then have res: "markExistingMessagesAsProcessed env uc w =
            (Some (Errorf ''error marking message as processed'' err),
             w\<lparr>db := (db w)(uc := marked pre (db w uc)),
               trace := trace w @ drain_calls uc pre @ [DocUpdate uc (ks ! n)]\<rparr>)"
      by (simp add: start w1_def emit_def)
    show ?thesis
      unfolding res using False err by (simp add: n_def)
  qed
qed

lemma first_failure:
  assumes "takeWhile P ks \<noteq> ks"
  shows "length (takeWhile P ks) < length ks \<and> \<not> P (ks ! length (takeWhile P ks))"
proof -
  have app: "takeWhile P ks @ dropWhile P ks = ks" by simp
  with assms have "dropWhile P ks \<noteq> []" by (metis append_Nil2)
  moreover have "length ks = length (takeWhile P ks) + length (dropWhile P ks)"
    using app by (metis length_append)
  ultimately have "length (takeWhile P ks) < length ks" by simp
  then show ?thesis by (simp add: nth_length_takeWhile)
qed

lemma set_drain_calls:
  "DocUpdate uc k \<in> set (drain_calls uc' ks) \<longleftrightarrow> uc = uc' \<and> k \<in> set ks"
  by (induction ks) (auto simp: drain_calls_def)

lemma drain_calls_no_reply:
  "ModelGenerate req \<notin> set (drain_calls uc ks) \<and> DocSet c i m \<notin> set (drain_calls uc ks)"
  by (induction ks) (auto simp: drain_calls_def)

text \<open>
  C4. When the clients initialise and the query iterator does not fail, in a collection
  whose document IDs are distinct, the drain updates the unprocessed documents in query
  order up to the first update that fails: it calls only the update (and prints), never
  the model or the reply sink, and changes nothing but the processed flags of the
  documents it has updated. When no update fails it returns nil and every document of
  the collection is processed; when one fails it returns that error at once, the failing
  document and those after it are as they were, and the goroutine ends the process
  with \<^verbatim>\<open>log.Fatalf\<close> without calling the listener.
\<close>

theorem backlog_drain:
  assumes "NewApp env = None" and "Firestore env = None" and "Documents_err env = None"
    and "distinct (map fst (db w uc))"
  shows "(let ks = map fst (unprocessed (db w uc));
              pre = takeWhile (\<lambda>k. Ref_Update env uc k = None) ks;
              r = markExistingMessagesAsProcessed env uc w
          in snd r = w\<lparr>db := (db w)(uc := marked pre (db w uc)),
                       trace := trace w @ drain_calls uc pre
                                @ (if pre = ks then [] else [DocUpdate uc (ks ! length pre)])\<rparr>
           \<and> (pre = ks \<longrightarrow>
                 fst r = None
               \<and> db (snd r) uc = map (\<lambda>(k, m). (k, m\<lparr>Processed := True\<rparr>)) (db w uc))
           \<and> (pre \<noteq> ks \<longrightarrow>
                 (\<exists>err. Ref_Update env uc (ks ! length pre) = Some err
                      \<and> fst r = Some (Errorf ''error marking message as processed'' err))
               \<and> (\<forall>k \<in> set (drop (length pre) ks).
                     map_of (db (snd r) uc) k = map_of (db w uc) k))
           \<and> (\<forall>err. fst r = Some err \<longrightarrow>
                 messageWorker env envListen uc pc snaps w
                   = (Fatalf ''Error marking existing messages: '' err, snd r))
           \<and> (\<forall>req c i m. ModelGenerate req \<notin> set (since w (snd r))
                 \<and> DocSet c i m \<notin> set (since w (snd r))))"
proof -
  define ks where "ks = map fst (unprocessed (db w uc))"
  define pre where "pre = takeWhile (\<lambda>k. Ref_Update env uc k = None) ks"
  define r where "r = markExistingMessagesAsProcessed env uc w"
  have res: "r = (if pre = ks
         then (None,
               w\<lparr>db := (db w)(uc := marked pre (db w uc)),
                 trace := trace w @ drain_calls uc pre\<rparr>)
         else (map_option (Errorf ''error marking message as processed'')
                 (Ref_Update env uc (ks ! length pre)),
               w\<lparr>db := (db w)(uc := marked pre (db w uc)),
                 trace := trace w @ drain_calls uc pre @ [DocUpdate uc (ks ! length pre)]\<rparr>))"
    unfolding r_def by (rule drain_result [OF assms ks_def pre_def])
  have worker: "\<forall>err. fst r = Some err \<longrightarrow>
                 messageWorker env envListen uc pc snaps w
                   = (Fatalf ''Error marking existing messages: '' err, snd r)"
    unfolding r_def by (cases "markExistingMessagesAsProcessed env uc w") (simp add: messageWorker_def)
  have main: "snd r = w\<lparr>db := (db w)(uc := marked pre (db w uc)),
                       trace := trace w @ drain_calls uc pre
                                @ (if pre = ks then [] else [DocUpdate uc (ks ! length pre)])\<rparr>
           \<and> (pre = ks \<longrightarrow>
                 fst r = None
               \<and> db (snd r) uc = map (\<lambda>(k, m). (k, m\<lparr>Processed := True\<rparr>)) (db w uc))
           \<and> (pre \<noteq> ks \<longrightarrow>
                 (\<exists>err. Ref_Update env uc (ks ! length pre) = Some err
                      \<and> fst r = Some (Errorf ''error marking message as processed'' err))
               \<and> (\<forall>k \<in> set (drop (length pre) ks).
                     map_of (db (snd r) uc) k = map_of (db w uc) k))"
  proof (cases "pre = ks")
    case True
    then show ?thesis
      using marked_all [OF assms(4)] by (simp add: res ks_def)
  next
    case False
    then have "Ref_Update env uc (ks ! length pre) \<noteq> None"
      unfolding pre_def by (rule first_failure [THEN conjunct2])
    then obtain err where err: "Ref_Update env uc (ks ! length pre) = Some err" by auto
    have "distinct ks"
      unfolding ks_def by (rule distinct_unprocessed_keys [OF assms(4)])
    moreover have "ks = pre @ drop (length pre) ks"
      unfolding pre_def by (metis append_take_drop_id takeWhile_eq_take)
    ultimately have disj: "set pre \<inter> set (drop (length pre) ks) = {}"
      by (metis distinct_append)
    have "\<forall>k \<in> set (drop (length pre) ks). map_of (marked pre (db w uc)) k = map_of (db w uc) k"
      using disj by (auto simp: map_of_marked)
    with False err show ?thesis
      by (simp add: res)
  qed
  have "since w (snd r)
          = drain_calls uc pre @ (if pre = ks then [] else [DocUpdate uc (ks ! length pre)])"
    using main by simp
  then have quiet: "\<forall>req c i m. ModelGenerate req \<notin> set (since w (snd r))
                 \<and> DocSet c i m \<notin> set (since w (snd r))"
    by (simp add: drain_calls_no_reply)
  show ?thesis
    unfolding Let_def ks_def [symmetric] pre_def [symmetric] r_def [symmetric]
    using main worker quiet by blast
qed

theorem backlog_drain_witness:
  "fst (markExistingMessagesAsProcessed example_env ''gccdpune-user'' (example_world 0 0 0)) = None
   \<and> db (snd (markExistingMessagesAsProcessed example_env ''gccdpune-user'' (example_world 0 0 0)))
        ''gccdpune-user''
     = [(''m0'', \<lparr>ID = ''m0'', Message = ''Old'', Timestamp = 3, Processed = True\<rparr>),
        (''m1'', \<lparr>ID = ''m1'', Message = ''Hello'', Timestamp = 5, Processed = True\<rparr>),
        (''m2'', \<lparr>ID = ''m2'', Message = ''Hi'', Timestamp = 6, Processed = True\<rparr>)]
   \<and> trace (snd (markExistingMessagesAsProcessed example_env ''gccdpune-user'' (example_world 0 0 0)))
     = [DocUpdate ''gccdpune-user'' ''m1'',
        Print ''Existing message marked as processed: m1\<newline>'',
        DocUpdate ''gccdpune-user'' ''m2'',
        Print ''Existing message marked as processed: m2\<newline>'']
   \<and> fst (markExistingMessagesAsProcessed example_env_update_fails ''gccdpune-user'' (example_world 0 0 0))
     = Some (Errorf ''error marking message as processed'' (Status Unavailable ''store down''))
   \<and> db (snd (markExistingMessagesAsProcessed example_env_update_fails ''gccdpune-user''
          (example_world 0 0 0))) ''gccdpune-user''
     = [(''m0'', \<lparr>ID = ''m0'', Message = ''Old'', Timestamp = 3, Processed = True\<rparr>),
        (''m1'', \<lparr>ID = ''m1'', Message = ''Hello'', Timestamp = 5, Processed = True\<rparr>),
        (''m2'', \<lparr>ID = ''m2'', Message = ''Hi'', Timestamp = 6, Processed = False\<rparr>)]
   \<and> fst (messageWorker example_env_update_fails example_env ''gccdpune-user'' ''gccdpune-go-pings''
          [Inr [Inr (example_env, \<lparr>RefID = ''m2'', DataTo = Inr example_msg\<rparr>)]] (example_world 0 0 0))
     = Fatalf ''Error marking existing messages: ''
         (Errorf ''error marking message as processed'' (Status Unavailable ''store down''))"
proof -
  let ?w = "example_world 0 0 0"
  have a: "NewApp example_env = None" "Firestore example_env = None" "Documents_err example_env = None"
    and b: "NewApp example_env_update_fails = None" "Firestore example_env_update_fails = None"
      "Documents_err example_env_update_fails = None"
    and d: "distinct (map fst (db ?w ''gccdpune-user''))"
    by (simp_all add: example_env_def example_env_update_fails_def example_world_def)
  have ks: "map fst (unprocessed (db ?w ''gccdpune-user'')) = [''m1'', ''m2'']"
    by (simp add: unprocessed_def example_world_def)
  have p1: "takeWhile (\<lambda>k. Ref_Update example_env ''gccdpune-user'' k = None) [''m1'', ''m2''] = [''m1'', ''m2'']"
    and p2: "takeWhile (\<lambda>k. Ref_Update example_env_update_fails ''gccdpune-user'' k = None) [''m1'', ''m2'']
      = [''m1'']"
    by (simp_all add: example_env_def example_env_update_fails_def)
  show ?thesis
    using backlog_drain [OF a d, where envListen = example_env and pc = "''gccdpune-go-pings''"
        and snaps = "[Inr [Inr (example_env, \<lparr>RefID = ''m2'', DataTo = Inr example_msg\<rparr>)]]"]
      backlog_drain [OF b d, where envListen = example_env and pc = "''gccdpune-go-pings''"
        and snaps = "[Inr [Inr (example_env, \<lparr>RefID = ''m2'', DataTo = Inr example_msg\<rparr>)]]"]
    unfolding Let_def ks p1 p2
    by (simp add: marked_def drain_calls_def) (simp add: example_world_def example_env_update_fails_def example_env_def)
qed

text \<open>
  C8. After a drain that returned nil, the collection has no unprocessed document, and
  a second drain, whatever the outside answers, makes no call and leaves the world as
  it is (and returns nil when its clients initialise and its iterator does not fail); and
  in the first drain no document that was already processed is changed or updated.
\<close>

theorem drain_idempotent:
  assumes "NewApp env1 = None" and "Firestore env1 = None" and "Documents_err env1 = None"
    and "distinct (map fst (db w uc))"
    and "fst (markExistingMessagesAsProcessed env1 uc w) = None"
  shows "(let w1 = snd (markExistingMessagesAsProcessed env1 uc w);
              r2 = markExistingMessagesAsProcessed env2 uc w1
          in unprocessed (db w1 uc) = []
           \<and> snd r2 = w1
           \<and> since w1 (snd r2) = []
           \<and> (NewApp env2 = None \<and> Firestore env2 = None \<and> Documents_err env2 = None
                 \<longrightarrow> fst r2 = None)
           \<and> (\<forall>(k, m) \<in> set (db w uc).
                 Processed m \<longrightarrow> (k, m) \<in> set (db w1 uc) \<and> DocUpdate uc k \<notin> set (since w w1)))"
proof -
  define ks where "ks = map fst (unprocessed (db w uc))"
  define w1 where "w1 = snd (markExistingMessagesAsProcessed env1 uc w)"
  define pre where "pre = takeWhile (\<lambda>k. Ref_Update env1 uc k = None) ks"
  note res = drain_result [OF assms(1-4) ks_def pre_def]
  have all: "pre = ks"
  proof (rule ccontr)
    assume ne: "pre \<noteq> ks"
    then have "Ref_Update env1 uc (ks ! length pre) \<noteq> None"
      unfolding pre_def by (rule first_failure [THEN conjunct2])
    with ne show False
      using res assms(5) by auto
  qed
  have w1: "w1 = w\<lparr>db := (db w)(uc := map (\<lambda>(k, m). (k, m\<lparr>Processed := True\<rparr>)) (db w uc)),
                   trace := trace w @ drain_calls uc ks\<rparr>"
    using res all marked_all [OF assms(4)]
    by (simp add: ks_def [symmetric] w1_def)
  have none: "unprocessed (db w1 uc) = []"
    by (simp add: w1 unprocessed_def filter_empty_conv case_prod_unfold)
  have docs2: "Documents env2 uc w1 = (case Documents_err env2 of None \<Rightarrow> [] | Some (n, err) \<Rightarrow> [Inl err])"
    by (simp add: Documents_def none split: option.splits)
  have same: "snd (markExistingMessagesAsProcessed env2 uc w1) = w1"
    by (simp add: markExistingMessagesAsProcessed_def docs2 split: option.splits)
  have ok2: "NewApp env2 = None \<and> Firestore env2 = None \<and> Documents_err env2 = None
               \<longrightarrow> fst (markExistingMessagesAsProcessed env2 uc w1) = None"
    by (simp add: markExistingMessagesAsProcessed_def docs2)
  have kept: "\<forall>(k, m) \<in> set (db w uc).
                 Processed m \<longrightarrow> (k, m) \<in> set (db w1 uc) \<and> DocUpdate uc k \<notin> set (since w w1)"
  proof (clarify, rule conjI)
    fix k m assume mem: "(k, m) \<in> set (db w uc)" and p: "Processed m"
    have "(k, m\<lparr>Processed := True\<rparr>) \<in> set (db w1 uc)"
      using mem by (force simp: w1)
    then show "(k, m) \<in> set (db w1 uc)"
      by (simp add: mark_processed_id [OF p])
    have "k \<notin> set ks"
      unfolding ks_def using unprocessed_key_iff [OF assms(4) mem] p by simp
    moreover have "since w w1 = drain_calls uc ks"
      by (simp add: w1)
    ultimately show "DocUpdate uc k \<notin> set (since w w1)"
      by (simp add: set_drain_calls)
  qed
  show ?thesis
    unfolding Let_def w1_def [symmetric]
    using none same ok2 kept by (simp add: since_def)
qed

theorem drain_idempotent_witness:
  "snd (markExistingMessagesAsProcessed example_env ''gccdpune-user''
          (snd (markExistingMessagesAsProcessed example_env ''gccdpune-user'' (example_world 0 0 0))))
     = snd (markExistingMessagesAsProcessed example_env ''gccdpune-user'' (example_world 0 0 0))
   \<and> fst (markExistingMessagesAsProcessed example_env ''gccdpune-user''
          (snd (markExistingMessagesAsProcessed example_env ''gccdpune-user'' (example_world 0 0 0))))
     = None
   \<and> since (example_world 0 0 0)
        (snd (markExistingMessagesAsProcessed example_env ''gccdpune-user'' (example_world 0 0 0)))
     = [DocUpdate ''gccdpune-user'' ''m1'',
        Print ''Existing message marked as processed: m1\<newline>'',
        DocUpdate ''gccdpune-user'' ''m2'',
        Print ''Existing message marked as processed: m2\<newline>'']"
proof -
  let ?w = "example_world 0 0 0"
  have a: "NewApp example_env = None" "Firestore example_env = None" "Documents_err example_env = None"
    and d: "distinct (map fst (db ?w ''gccdpune-user''))"
    by (simp_all add: example_env_def example_world_def)
  have ks: "map fst (unprocessed (db ?w ''gccdpune-user'')) = [''m1'', ''m2'']"
    by (simp add: unprocessed_def example_world_def)
  have p: "takeWhile (\<lambda>k. Ref_Update example_env ''gccdpune-user'' k = None) [''m1'', ''m2''] = [''m1'', ''m2'']"
    by (simp add: example_env_def)
  have r: "markExistingMessagesAsProcessed example_env ''gccdpune-user'' ?w =
             (None, ?w\<lparr>db := (db ?w)(''gccdpune-user'' := marked [''m1'', ''m2''] (db ?w ''gccdpune-user'')),
                      trace := trace ?w @ drain_calls ''gccdpune-user'' [''m1'', ''m2'']\<rparr>)"
    using drain_result [OF a d ks [symmetric] p [symmetric]] by simp
  have f: "fst (markExistingMessagesAsProcessed example_env ''gccdpune-user'' ?w) = None"
    by (simp add: r)
  have t: "snd (markExistingMessagesAsProcessed example_env ''gccdpune-user''
               (snd (markExistingMessagesAsProcessed example_env ''gccdpune-user'' ?w)))
             = snd (markExistingMessagesAsProcessed example_env ''gccdpune-user'' ?w)
           \<and> fst (markExistingMessagesAsProcessed example_env ''gccdpune-user''
               (snd (markExistingMessagesAsProcessed example_env ''gccdpune-user'' ?w))) = None"
    using drain_idempotent [OF a d f, where ?env2.0 = example_env] a
    by (simp add: Let_def)
  have s: "since ?w (snd (markExistingMessagesAsProcessed example_env ''gccdpune-user'' ?w))
             = drain_calls ''gccdpune-user'' [''m1'', ''m2'']"
    by (simp add: r since_def)
  show ?thesis
    using t s by (simp add: drain_calls_def)
qed

section \<open>The shared state along a run\<close>

lemma fetch_any:
  "fst (fetchPollStatus env pc w) = x \<Longrightarrow>
   fetchPollStatus env pc w' = (x, emit (DocGet pc ''q1'') w')"
  by (metis fetchPollStatus_fst fetchPollStatus_snd prod.collapse)

lemma monitorTick_frame:
  "clock (snd (monitorTick env pc pollc w)) = clock w
   \<and> lastUserMessage (snd (monitorTick env pc pollc w)) = lastUserMessage w
   \<and> (lastResponseTime (snd (monitorTick env pc pollc w)) = lastResponseTime w
        \<or> lastResponseTime (snd (monitorTick env pc pollc w)) = clock w (reads w))
   \<and> reads w < reads (snd (monitorTick env pc pollc w))
   \<and> (\<forall>ps. fst (fetchPollStatus env pollc w) = Inr ps \<longrightarrow>
          conversationSummary (snd (monitorTick env pc pollc w))
            = conversationSummary (updateConversationSummary ps w))"
proof (cases "fst (fetchPollStatus env pollc w)")
  case (Inl err)
  then show ?thesis
    by (simp add: monitorTick_def Now_def fetch_any [OF Inl] emit_def)
next
  case (Inr ps)
  note fetched = fetch_any [OF Inr]
  show ?thesis
  proof (cases "30 * Second < Sub (clock w (reads w)) (lastUserMessage w)
            \<and> 10 * Second \<le> Sub (clock w (reads w)) (lastResponseTime w)")
    case True
    then have idle: "(30 * Second < Sub (clock w (reads w)) (lastUserMessage w)
            \<and> 10 * Second \<le> Sub (clock w (reads w)) (lastResponseTime w)) = True"
      by simp
    show ?thesis
    proof (cases "Generate env (requestText ''prompt''
                    (conversationSummary (updateConversationSummary ps w)))")
      case (Inl err)
      then show ?thesis
        by (simp add: Inr idle monitorTick_def Now_def fetched emit_def
            updateConversationSummary_def Let_def generateResponse_eq)
    next
      case (Inr p)
      then show ?thesis
        by (cases "Doc_Set env pc ''host-prompt''")
           (simp_all add: \<open>fst (fetchPollStatus env pollc w) = Inr ps\<close> idle monitorTick_def Now_def
            fetched emit_def updateConversationSummary_def Let_def generateResponse_eq writeMessage_eq)
    qed
  next
    case False
    then have nidle: "(30 * Second < Sub (clock w (reads w)) (lastUserMessage w)
            \<and> 10 * Second \<le> Sub (clock w (reads w)) (lastResponseTime w)) = False"
      by simp
    show ?thesis
    proof (cases "15 * Second \<le> Sub (clock w (reads w)) (lastResponseTime w)")
      case False
      then show ?thesis
        by (simp add: Inr nidle monitorTick_def Now_def fetched emit_def
            updateConversationSummary_def Let_def)
    next
      case True
      note due = this
      show ?thesis
      proof (cases "Generate env (requestText ''poll-update'' (''Poll update: '' @ ps))")
        case (Inl err)
        with due show ?thesis
          by (simp add: \<open>fst (fetchPollStatus env pollc w) = Inr ps\<close> nidle monitorTick_def Now_def
              fetched emit_def updateConversationSummary_def Let_def generateResponse_eq)
      next
        case (Inr p)
        with due show ?thesis
          by (cases "Doc_Set env pc ''host-prompt''")
             (simp_all add: \<open>fst (fetchPollStatus env pollc w) = Inr ps\<close> nidle monitorTick_def
              Now_def fetched emit_def updateConversationSummary_def Let_def generateResponse_eq
              writeMessage_eq)
      qed
    qed
  qed
qed

lemma handleMessage_frame:
  "clock (snd (handleMessage env uc pc refID msg w)) = clock w
   \<and> lastUserMessage (snd (handleMessage env uc pc refID msg w)) = clock w (reads w)
   \<and> (lastResponseTime (snd (handleMessage env uc pc refID msg w)) = lastResponseTime w
        \<and> reads (snd (handleMessage env uc pc refID msg w)) \<in> {Suc (reads w), Suc (Suc (reads w))}
        \<or> lastResponseTime (snd (handleMessage env uc pc refID msg w)) = clock w (Suc (Suc (reads w)))
        \<and> reads (snd (handleMessage env uc pc refID msg w)) = Suc (Suc (Suc (reads w))))
   \<and> conversationSummary (snd (handleMessage env uc pc refID msg w)) = conversationSummary w"
proof (cases "Generate env (requestText (Message msg) (conversationSummary w))")
  case (Inl err)
  show ?thesis
    by (simp add: handleMessage_generate_fails [OF Inl])
next
  case (Inr reply)
  show ?thesis
  proof (cases "Doc_Set env pc refID")
    case (Some err)
    show ?thesis
      by (simp add: handleMessage_write_fails [OF Inr Some])
  next
    case None
    note written = this
    show ?thesis
    proof (cases "Ref_Update env uc refID")
      case (Some err)
      show ?thesis
        by (simp add: handleMessage_update_fails [OF Inr written Some])
    next
      case None
      show ?thesis
      proof (cases "uc = pc \<or> refID \<in> fst ` set (db w uc)")
        case True
        show ?thesis
          by (simp add: handleMessage_ok [OF Inr written None True])
      next
        case False
        then have "uc \<noteq> pc" and "refID \<notin> fst ` set (db w uc)" by simp_all
        then show ?thesis
          by (simp add: handleMessage_not_found [OF Inr written None])
      qed
    qed
  qed
qed

lemma critical_step:
  assumes "mono (clock w)"
    and "lastUserMessage w \<le> clock w (reads w)"
    and "lastResponseTime w \<le> clock w (reads w)"
  shows "clock (snd (critical uc pc pollc ev w)) = clock w
       \<and> lastUserMessage w \<le> lastUserMessage (snd (critical uc pc pollc ev w))
       \<and> lastResponseTime w \<le> lastResponseTime (snd (critical uc pc pollc ev w))
       \<and> lastUserMessage (snd (critical uc pc pollc ev w))
            \<le> clock w (reads (snd (critical uc pc pollc ev w)))
       \<and> lastResponseTime (snd (critical uc pc pollc ev w))
            \<le> clock w (reads (snd (critical uc pc pollc ev w)))"
proof (cases ev)
  case (UserMessage env refID msg)
  let ?w' = "snd (handleMessage env uc pc refID msg w)"
  note f = handleMessage_frame [of env uc pc refID msg w]
  have le: "reads w \<le> reads ?w'" using f by auto
  have up: "clock w (reads w) \<le> clock w (reads ?w')"
    using assms(1) le by (rule monoD)
  have r: "lastResponseTime w \<le> lastResponseTime ?w' \<and> lastResponseTime ?w' \<le> clock w (reads ?w')"
  proof -
    have "clock w (reads w) \<le> clock w (Suc (Suc (reads w)))"
      using assms(1) by (rule monoD) simp
    moreover have "clock w (Suc (Suc (reads w))) \<le> clock w (Suc (Suc (Suc (reads w))))"
      using assms(1) by (rule monoD) simp
    ultimately show ?thesis
      using f assms(3) up by auto
  qed
  show ?thesis
    using f assms(2) up r by (simp add: critical_def UserMessage)
next
  case (Tick env)
  let ?w' = "snd (monitorTick env pc pollc w)"
  note f = monitorTick_frame [of env pc pollc w]
  have up: "clock w (reads w) \<le> clock w (reads ?w')"
    using assms(1) by (rule monoD) (use f in simp)
  show ?thesis
    using f assms(2,3) up by (auto simp: critical_def Tick)
qed

lemma run_monotone:
  assumes "mono (clock w)"
    and "lastUserMessage w \<le> clock w (reads w)"
    and "lastResponseTime w \<le> clock w (reads w)"
  shows "sorted (map lastUserMessage (w # run uc pc pollc evs w))
       \<and> sorted (map lastResponseTime (w # run uc pc pollc evs w))"
  using assms
proof (induction evs arbitrary: w)
  case Nil
  then show ?case by simp
next
  case (Cons ev evs)
  let ?w1 = "snd (critical uc pc pollc ev w)"
  note s = critical_step [OF Cons.prems, of uc pc pollc ev]
  have m: "mono (clock ?w1)" using s Cons.prems(1) by simp
  have u: "lastUserMessage ?w1 \<le> clock ?w1 (reads ?w1)" using s by simp
  have r: "lastResponseTime ?w1 \<le> clock ?w1 (reads ?w1)" using s by simp
  note ih = Cons.IH [OF m u r]
  show ?case
  proof (cases "critical uc pc pollc ev w")
    case (Pair res w1)
    show ?thesis
    proof (cases res)
      case None
      with Pair have "run uc pc pollc (ev # evs) w = ?w1 # run uc pc pollc evs ?w1"
        by simp
      then show ?thesis
        using ih s by (simp del: sorted_wrt.simps add: sorted2)
    next
      case (Some err)
      with Pair have "run uc pc pollc (ev # evs) w = [?w1]"
        by simp
      then show ?thesis
        using s by simp
    qed
  qed
qed

lemma run_summary:
  "i < length (run uc pc pollc evs w) \<Longrightarrow> evs ! i = Tick env \<Longrightarrow>
   fst (fetchPollStatus env pollc w0) = Inr ps \<Longrightarrow>
   conversationSummary (run uc pc pollc evs w ! i) = conversationSummary (updateConversationSummary ps w0)"
proof (induction evs arbitrary: w i)
  case Nil
  then show ?case by simp
next
  case (Cons ev evs)
  show ?case
  proof (cases "critical uc pc pollc ev w")
    case (Pair res w1)
    show ?thesis
    proof (cases i)
      case 0
      with Cons.prems(2) have ev: "ev = Tick env" by simp
      have "fst (fetchPollStatus env pollc w) = Inr ps"
        using Cons.prems(3) fetchPollStatus_fst by metis
      then have "conversationSummary (snd (monitorTick env pc pollc w))
                   = conversationSummary (updateConversationSummary ps w)"
        using monitorTick_frame [of env pc pollc w] by simp
      moreover have "run uc pc pollc (ev # evs) w ! 0 = snd (monitorTick env pc pollc w)"
        using Pair by (cases res) (simp_all add: critical_def ev)
      ultimately show ?thesis
        by (simp add: 0 updateConversationSummary_def)
    next
      case (Suc j)
      show ?thesis
      proof (cases res)
        case None
        with Pair Cons.prems Suc have "j < length (run uc pc pollc evs w1)" and "evs ! j = Tick env"
          by simp_all
        then have "conversationSummary (run uc pc pollc evs w1 ! j)
                     = conversationSummary (updateConversationSummary ps w0)"
          using Cons.IH Cons.prems(3) by blast
        with Pair None Suc show ?thesis by simp
      next
        case (Some err)
        with Pair Cons.prems(1) Suc show ?thesis by simp
      qed
    qed
  qed
qed

lemma fetchPollStatus_spec:
  "Doc_Get env pc ''q1'' = Inr (Inr p) \<Longrightarrow>
   fst (fetchPollStatus env pc w) = Inr (spec_poll_summary p)"
  by (simp add: fetchPollStatus_def Let_def optionsLoop_append spec_poll_summary_def
      spec_option_line_def Sprintf_d_length)

lemma run_summary_spec:
  assumes "i < length (run uc pc pollc evs w)" and "evs ! i = Tick env"
    and "Doc_Get env pollc ''q1'' = Inr (Inr p)"
  shows "conversationSummary (run uc pc pollc evs w ! i)
           = ''Current poll status:\<newline>'' @ spec_poll_summary p
             @ ''\<newline>Conversation history: [Add relevant conversation history here]''"
  using run_summary [OF assms(1,2) fetchPollStatus_spec [OF assms(3), where w = w]]
  by (simp add: updateConversationSummary_def)

text \<open>
  C3. Along every run of critical sections (handled messages and monitor ticks, in any
  order, with any answers of the outside), when the clock is non-decreasing and the two
  timestamps are not ahead of it at the start, \<open>lastUserMessage\<close> and
  \<open>lastResponseTime\<close> never decrease from one world of the run to the next; and after
  every tick on which the poll document \<open>p\<close> is fetched and converted, the shared summary
  is the line \<open>Current poll status:\<close>, then the summary of \<open>p\<close> (its question line and
  one line per option), then the line
  \<open>Conversation history: [Add relevant conversation history here]\<close>.
\<close>

theorem timestamps_monotone:
  assumes "mono (clock w)"
    and "lastUserMessage w \<le> clock w (reads w)"
    and "lastResponseTime w \<le> clock w (reads w)"
  shows "sorted (map lastUserMessage (w # run uc pc pollc evs w))
       \<and> sorted (map lastResponseTime (w # run uc pc pollc evs w))
       \<and> (\<forall>i env p.
             i < length (run uc pc pollc evs w) \<and> evs ! i = Tick env
               \<and> Doc_Get env pollc ''q1'' = Inr (Inr p) \<longrightarrow>
             conversationSummary (run uc pc pollc evs w ! i)
               = ''Current poll status:\<newline>'' @ spec_poll_summary p
                 @ ''\<newline>Conversation history: [Add relevant conversation history here]'')"
  using run_monotone [OF assms] run_summary_spec by blast

theorem timestamps_monotone_witness:
  "map lastUserMessage
     (example_run_world # run ''gccdpune-user'' ''gccdpune-go-pings'' ''gccdpune-poll''
        [UserMessage example_env ''m1'' example_msg, Tick example_env] example_run_world)
     = [50 * Second, 100 * Second, 100 * Second]
   \<and> map lastResponseTime
     (example_run_world # run ''gccdpune-user'' ''gccdpune-go-pings'' ''gccdpune-poll''
        [UserMessage example_env ''m1'' example_msg, Tick example_env] example_run_world)
     = [70 * Second, 140 * Second, 160 * Second]
   \<and> conversationSummary
     (run ''gccdpune-user'' ''gccdpune-go-pings'' ''gccdpune-poll''
        [UserMessage example_env ''m1'' example_msg, Tick example_env] example_run_world ! 1)
     = ''Current poll status:\<newline>'' @ spec_poll_summary example_poll
       @ ''\<newline>Conversation history: [Add relevant conversation history here]''"
proof -
  let ?evs = "[UserMessage example_env ''m1'' example_msg, Tick example_env]"
  have m: "mono (clock example_run_world)"
    and u: "lastUserMessage example_run_world \<le> clock example_run_world (reads example_run_world)"
    and r: "lastResponseTime example_run_world \<le> clock example_run_world (reads example_run_world)"
    by (simp_all add: example_run_world_def example_world_def mono_def Second_def)
  have g: "Generate example_env (requestText (Message example_msg) (conversationSummary example_run_world))
             = Inr ''Namaste!''"
    and s: "Doc_Set example_env ''gccdpune-go-pings'' ''m1'' = None"
    and up: "Ref_Update example_env ''gccdpune-user'' ''m1'' = None"
    and k: "''gccdpune-user'' = ''gccdpune-go-pings'' \<or> ''m1'' \<in> fst ` set (db example_run_world ''gccdpune-user'')"
    by (simp_all add: example_env_def example_run_world_def example_world_def)
  note h = handleMessage_ok [OF g s up k]
  let ?w1 = "snd (handleMessage example_env ''gccdpune-user'' ''gccdpune-go-pings'' ''m1'' example_msg
                example_run_world)"
  have t1: "lastUserMessage ?w1 = 100 * Second" "lastResponseTime ?w1 = 140 * Second"
    "clock ?w1 = clock example_run_world" "reads ?w1 = 3"
    by (simp_all add: h) (simp_all add: example_run_world_def example_world_def Second_def)
  have f1: "fst (handleMessage example_env ''gccdpune-user'' ''gccdpune-go-pings'' ''m1'' example_msg
                example_run_world) = None"
    by (simp add: h)
  have t2: "fst (monitorTick example_env ''gccdpune-go-pings'' ''gccdpune-poll'' ?w1) = None"
    "lastUserMessage (snd (monitorTick example_env ''gccdpune-go-pings'' ''gccdpune-poll'' ?w1))
       = 100 * Second"
    "lastResponseTime (snd (monitorTick example_env ''gccdpune-go-pings'' ''gccdpune-poll'' ?w1))
       = 160 * Second"
    "conversationSummary (snd (monitorTick example_env ''gccdpune-go-pings'' ''gccdpune-poll'' ?w1))
       = ''Current poll status:\<newline>'' @ spec_poll_summary example_poll
         @ ''\<newline>Conversation history: [Add relevant conversation history here]''"
    by (simp_all add: h monitorTick_def Now_def emit_def fetch_pair [OF example_fetch]
          generateResponse_eq writeMessage_eq updateConversationSummary_def Let_def)
       (simp_all add: example_run_world_def example_world_def example_env_def Sub_def Second_def
          minDuration_def maxDuration_def generateResponse_eq writeMessage_eq emit_def)
  have run_eq: "run ''gccdpune-user'' ''gccdpune-go-pings'' ''gccdpune-poll'' ?evs example_run_world
                  = [?w1, snd (monitorTick example_env ''gccdpune-go-pings'' ''gccdpune-poll'' ?w1)]"
  proof (cases "handleMessage example_env ''gccdpune-user'' ''gccdpune-go-pings'' ''m1'' example_msg
                  example_run_world")
    case (Pair res1 w1)
    show ?thesis
    proof (cases "monitorTick example_env ''gccdpune-go-pings'' ''gccdpune-poll'' w1")
      case (Pair res2 w2)
      with \<open>handleMessage example_env ''gccdpune-user'' ''gccdpune-go-pings'' ''m1'' example_msg
                  example_run_world = (res1, w1)\<close> f1 t2(1)
      show ?thesis by (simp add: critical_def)
    qed
  qed
  have w0: "lastUserMessage example_run_world = 50 * Second"
    "lastResponseTime example_run_world = 70 * Second"
    by (simp_all add: example_run_world_def example_world_def)
  show ?thesis
    using timestamps_monotone [OF m u r, where evs = ?evs and uc = "''gccdpune-user''"
        and pc = "''gccdpune-go-pings''" and pollc = "''gccdpune-poll''"]
    by (simp add: run_eq t1 t2 w0 del: run.simps)
qed

section \<open>The lock discipline of the critical sections\<close>

text \<open>
  The lock discipline of the two critical sections: on every path, the calls of a
  critical section start with \<^verbatim>\<open>mu.Lock()\<close>, end with \<^verbatim>\<open>mu.Unlock()\<close> and hold no other
  call on the mutex.
\<close>

lemma handleMessage_locked:
  "hd (since w (snd (handleMessage env uc pc refID msg w))) = Lock
   \<and> last (since w (snd (handleMessage env uc pc refID msg w))) = Unlock
   \<and> count_list (since w (snd (handleMessage env uc pc refID msg w))) Lock = 1
   \<and> count_list (since w (snd (handleMessage env uc pc refID msg w))) Unlock = 1"
proof (cases "Generate env (requestText (Message msg) (conversationSummary w))")
  case (Inl err)
  show ?thesis
    by (simp add: handleMessage_generate_fails [OF Inl])
next
  case (Inr reply)
  show ?thesis
  proof (cases "Doc_Set env pc refID")
    case (Some err)
    show ?thesis
      by (simp add: handleMessage_write_fails [OF Inr Some])
  next
    case None
    note written = this
    show ?thesis
    proof (cases "Ref_Update env uc refID")
      case (Some err)
      show ?thesis
        by (simp add: handleMessage_update_fails [OF Inr written Some])
    next
      case None
      show ?thesis
      proof (cases "uc = pc \<or> refID \<in> fst ` set (db w uc)")
        case True
        show ?thesis
          by (simp add: handleMessage_ok [OF Inr written None True])
      next
        case False
        then have "uc \<noteq> pc" and "refID \<notin> fst ` set (db w uc)" by simp_all
        then show ?thesis
          by (simp add: handleMessage_not_found [OF Inr written None])
      qed
    qed
  qed
qed

lemma monitorTick_locked:
  "hd (since w (snd (monitorTick env pc pollc w))) = Lock
   \<and> last (since w (snd (monitorTick env pc pollc w))) = Unlock
   \<and> count_list (since w (snd (monitorTick env pc pollc w))) Lock = 1
   \<and> count_list (since w (snd (monitorTick env pc pollc w))) Unlock = 1"
proof (cases "fst (fetchPollStatus env pollc w)")
  case (Inl err)
  then show ?thesis
    by (simp add: monitorTick_def Now_def fetch_any [OF Inl] emit_def since_def)
next
  case (Inr ps)
  note fetched = fetch_any [OF Inr]
  note unfold = monitorTick_def Now_def fetched emit_def updateConversationSummary_def Let_def
    generateResponse_eq writeMessage_eq since_def
  show ?thesis
  proof (cases "30 * Second < Sub (clock w (reads w)) (lastUserMessage w)
            \<and> 10 * Second \<le> Sub (clock w (reads w)) (lastResponseTime w)")
    case True
    then have idle: "(30 * Second < Sub (clock w (reads w)) (lastUserMessage w)
            \<and> 10 * Second \<le> Sub (clock w (reads w)) (lastResponseTime w)) = True"
      by simp
    show ?thesis
    proof (cases "Generate env (requestText ''prompt''
                    (conversationSummary (updateConversationSummary ps w)))")
      case (Inl err)
      then show ?thesis
        by (simp add: idle unfold)
    next
      case (Inr p)
      then show ?thesis
        by (cases "Doc_Set env pc ''host-prompt''") (simp_all add: idle unfold)
    qed
  next
    case False
    then have nidle: "(30 * Second < Sub (clock w (reads w)) (lastUserMessage w)
            \<and> 10 * Second \<le> Sub (clock w (reads w)) (lastResponseTime w)) = False"
      by simp
    show ?thesis
    proof (cases "15 * Second \<le> Sub (clock w (reads w)) (lastResponseTime w)")
      case False
      then show ?thesis
        by (simp add: nidle unfold)
    next
      case True
      note due = this
      show ?thesis
      proof (cases "Generate env (requestText ''poll-update'' (''Poll update: '' @ ps))")
        case (Inl err)
        with due show ?thesis
          by (simp add: nidle unfold)
      next
        case (Inr p)
        with due show ?thesis
          by (cases "Doc_Set env pc ''host-prompt''") (simp_all add: nidle unfold)
      qed
    qed
  qed
qed

end
